theory Spec2Isabelle
  imports Main "HOL-Library.Word" "HOL-Library.Sublist"
begin

section \<open>Ways in which the analyzer stops abnormally\<close>

text \<open>
  The header is modelled as built with assertions enabled: a failed \<^verbatim>\<open>assert\<close> ends the
  process. A call through a null pointer and an index past the end of a vector are
  undefined behaviour in C++; the model records them as abnormal stops as well, so that
  no theorem below depends on what happens afterwards.
\<close>

datatype abort =
    AssertionFailed
  | NullDereference
  | OutOfRange
  | UndefinedConversion

section \<open>The fragment of the IR type system that the header inspects\<close>

datatype StructType = StructType (getName: string) (isOpaque: bool)

datatype Type =
    StructTy StructType
  | PointerTy Type
  | ArrayTy Type
  | ScalarTy

fun isPointerTy :: "Type \<Rightarrow> bool" where
  "isPointerTy (PointerTy t) = True"
| "isPointerTy t = False"

text \<open>\<^verbatim>\<open>StructInfo::getStructType\<close>: unwraps pointers and arrays down to a struct.\<close>

fun getStructType :: "Type option \<Rightarrow> StructType option" where
  "getStructType None = None"
| "getStructType (Some (StructTy st)) = Some st"
| "getStructType (Some (PointerTy ty)) = getStructType (Some ty)"
| "getStructType (Some (ArrayTy ty)) = getStructType (Some ty)"
| "getStructType (Some ScalarTy) = None"

section \<open>Decimal rendering of integers\<close>

text \<open>\<^verbatim>\<open>std::to_string\<close> on an unsigned value, and the stream insertion of an \<^verbatim>\<open>int64_t\<close>.\<close>

definition digit :: "nat \<Rightarrow> char" where
  "digit d = ''0123456789'' ! d"

fun to_string :: "nat \<Rightarrow> string" where
  "to_string n = (if n < 10 then [digit n] else to_string (n div 10) @ [digit (n mod 10)])"

declare to_string.simps [simp del]

definition show_int :: "int \<Rightarrow> string" where
  "show_int i = (if i < 0 then CHR ''-'' # to_string (nat (- i)) else to_string (nat i))"

section \<open>Rendering of guard checks\<close>

subsection \<open>\<^verbatim>\<open>StructInfo::dumpPred\<close>\<close>

text \<open>
  The ten integer comparison predicates of an \<^verbatim>\<open>ICmpInst\<close>; every other value of the
  predicate enumeration falls into the \<^verbatim>\<open>default\<close> branch of the switch.
\<close>

datatype Predicate =
    ICMP_EQ | ICMP_NE
  | ICMP_UGT | ICMP_UGE | ICMP_ULT | ICMP_ULE
  | ICMP_SGT | ICMP_SGE | ICMP_SLT | ICMP_SLE
  | OTHER_PREDICATE

text \<open>
  The three-way branch that every case of the switch repeats: \<open>branchTaken = 0\<close> is the
  true branch, \<open>1\<close> the false branch, anything else both.
\<close>

definition byBranch :: "32 word \<Rightarrow> string \<Rightarrow> string \<Rightarrow> string \<Rightarrow> string" where
  "byBranch taken t f b = (if taken = 0 then t else if taken = 1 then f else b)"

text \<open>The result is the text handed to \<^verbatim>\<open>RES_REPORT\<close>.\<close>

fun dumpPred :: "Predicate \<Rightarrow> 32 word \<Rightarrow> string" where
  "dumpPred ICMP_SLT bt = byBranch bt '' [<] '' '' [>=] '' '' [<]* ''"
| "dumpPred ICMP_ULT bt = byBranch bt '' [<] '' '' [>=] '' '' [<]* ''"
| "dumpPred ICMP_SGT bt = byBranch bt '' [>] '' '' [<=] '' '' [>]* ''"
| "dumpPred ICMP_UGT bt = byBranch bt '' [>] '' '' [<=] '' '' [>]* ''"
| "dumpPred ICMP_ULE bt = byBranch bt '' [<=] '' '' [>] '' '' [<=]* ''"
| "dumpPred ICMP_SLE bt = byBranch bt '' [<=] '' '' [>] '' '' [<=]* ''"
| "dumpPred ICMP_SGE bt = byBranch bt '' [>=] '' '' [<] '' '' [>=]* ''"
| "dumpPred ICMP_UGE bt = byBranch bt '' [>=] '' '' [<] '' '' [>=]* ''"
| "dumpPred ICMP_EQ bt = byBranch bt '' [==] '' '' [!=] '' '' [==]* ''"
| "dumpPred ICMP_NE bt = byBranch bt '' [!=] '' '' [==] '' '' [!=]* ''"
| "dumpPred OTHER_PREDICATE bt = []"

text \<open>
  The report's reading of the switch, in the words of the specification: six comparison
  classes, each with a negation, and the three branch outcomes.
\<close>

datatype Comparison = Less | Greater | LessEq | GreaterEq | Equal | NotEqual

fun comparisonOf :: "Predicate \<Rightarrow> Comparison option" where
  "comparisonOf ICMP_SLT = Some Less"
| "comparisonOf ICMP_ULT = Some Less"
| "comparisonOf ICMP_SGT = Some Greater"
| "comparisonOf ICMP_UGT = Some Greater"
| "comparisonOf ICMP_SLE = Some LessEq"
| "comparisonOf ICMP_ULE = Some LessEq"
| "comparisonOf ICMP_SGE = Some GreaterEq"
| "comparisonOf ICMP_UGE = Some GreaterEq"
| "comparisonOf ICMP_EQ = Some Equal"
| "comparisonOf ICMP_NE = Some NotEqual"
| "comparisonOf OTHER_PREDICATE = None"

fun negation :: "Comparison \<Rightarrow> Comparison" where
  "negation Less = GreaterEq"
| "negation GreaterEq = Less"
| "negation Greater = LessEq"
| "negation LessEq = Greater"
| "negation Equal = NotEqual"
| "negation NotEqual = Equal"

fun operator :: "Comparison \<Rightarrow> string" where
  "operator Less = ''<''"
| "operator Greater = ''>''"
| "operator LessEq = ''<=''"
| "operator GreaterEq = ''>=''"
| "operator Equal = ''==''"
| "operator NotEqual = ''!=''"

datatype Outcome = TrueBranch | FalseBranch | BothBranches

definition outcomeOf :: "32 word \<Rightarrow> Outcome" where
  "outcomeOf taken =
     (if taken = 0 then TrueBranch else if taken = 1 then FalseBranch else BothBranches)"

fun narrowed :: "Comparison \<Rightarrow> Outcome \<Rightarrow> string" where
  "narrowed c TrueBranch = '' ['' @ operator c @ ''] ''"
| "narrowed c FalseBranch = '' ['' @ operator (negation c) @ ''] ''"
| "narrowed c BothBranches = '' ['' @ operator c @ '']* ''"

subsection \<open>\<^verbatim>\<open>StructInfo::dumpCmpSrc\<close>\<close>

text \<open>
  The operands of a field access as \<^verbatim>\<open>getOperand\<close> sees them: operand 0 is the base
  pointer, the others are indices, of which only constant integers are told apart.
\<close>

datatype Operand = ConstantIntOp int | OtherOp

text \<open>
  The kinds of value that \<^verbatim>\<open>dumpCmpSrc\<close> distinguishes, in the order of its
  \<^verbatim>\<open>dyn_cast\<close> chain. A constructor's last string, where present, is the text that
  \<^verbatim>\<open>print(errs())\<close> produces for the value.
\<close>

datatype Value =
    GetElementPtrInst (getPointerOperandType: Type) (operands: "Operand list")
  | ConstantInt int
  | ConstantPointerNull
  | IntrinsicInst string
  | CallInst "string option" string
  | Argument string
  | BitCastInst string
  | OtherValue string

datatype emitted = RES_REPORT string | print_errs string

text \<open>
  \<^verbatim>\<open>getScopeName\<close> is declared outside the header and is a parameter here. The result
  is what was written before the function returned or stopped, and the stop if any.
\<close>

fun dumpCmpSrc :: "(StructType \<Rightarrow> string) \<Rightarrow> Value \<Rightarrow> emitted list \<times> abort option" where
  "dumpCmpSrc getScopeName (GetElementPtrInst pty ops) =
     (case pty of
        PointerTy baseType \<Rightarrow>
          (case baseType of
             StructTy stType \<Rightarrow>
               (if length ops \<le> 2 then ([RES_REPORT ''| ''], Some OutOfRange)
                else case ops ! 2 of
                  ConstantIntOp offset \<Rightarrow>
                    ([RES_REPORT ''| '',
                      RES_REPORT (''<'' @ getScopeName stType @ '', '' @ show_int offset @ ''>''),
                      RES_REPORT '' |''], None)
                | OtherOp \<Rightarrow> ([RES_REPORT ''| ''], Some AssertionFailed))
           | _ \<Rightarrow> ([RES_REPORT ''| ''], Some AssertionFailed))
      | _ \<Rightarrow> ([RES_REPORT ''| ''], Some AssertionFailed))"
| "dumpCmpSrc getScopeName (ConstantInt num) =
     ([RES_REPORT ''| '', RES_REPORT (''<C, '' @ show_int num @ ''>''), RES_REPORT '' |''], None)"
| "dumpCmpSrc getScopeName ConstantPointerNull =
     ([RES_REPORT ''| '', RES_REPORT ''<C, null>'', RES_REPORT '' |''], None)"
| "dumpCmpSrc getScopeName (IntrinsicInst name) =
     ([RES_REPORT ''| '', RES_REPORT (''<Intrinsic, '' @ name @ ''>''), RES_REPORT '' |''], None)"
| "dumpCmpSrc getScopeName (CallInst F printed) =
     (case F of
        None \<Rightarrow>
          ([RES_REPORT ''| '', RES_REPORT ''<CallInst, '', print_errs printed, RES_REPORT ''>'',
            RES_REPORT '' |''], None)
      | Some name \<Rightarrow>
          (if name = [] then
             ([RES_REPORT ''| '', RES_REPORT ''<CallInst, '', print_errs printed,
               RES_REPORT ''>'', RES_REPORT '' |''], None)
           else
             ([RES_REPORT ''| '', RES_REPORT ''<CallInst, '', RES_REPORT (name @ ''>''),
               RES_REPORT '' |''], None)))"
| "dumpCmpSrc getScopeName (Argument printed) =
     ([RES_REPORT ''| '', RES_REPORT ''<Arg, '', print_errs printed, RES_REPORT ''>'',
       RES_REPORT '' |''], None)"
| "dumpCmpSrc getScopeName (BitCastInst printed) =
     ([RES_REPORT ''| '', RES_REPORT ''<BitCast, '', print_errs printed, RES_REPORT ''>'',
       RES_REPORT '' |''], None)"
| "dumpCmpSrc getScopeName (OtherValue printed) =
     ([RES_REPORT ''| '', RES_REPORT ''<Unknown, '', print_errs printed, RES_REPORT ''>'',
       RES_REPORT '' |''], None)"

text \<open>The descriptor of a value is rendered when the closing bar has been written.\<close>

definition rendered :: "emitted list \<times> abort option \<Rightarrow> bool" where
  "rendered r = (snd r = None \<and> last (fst r) = RES_REPORT '' |'')"

section \<open>The instructions that the allocation classifier walks\<close>

text \<open>
  Only the shapes that \<^verbatim>\<open>getAllocCache\<close> tells apart are kept. Reading inwards from the
  allocation call: the instruction that produces its first operand, the global variable
  that instruction loads from, the users of that global, the value a store writes, the
  first argument of the call that produced the value, and the constant it points into.
\<close>

text \<open>
  An initializer is character data or something else. \<^verbatim>\<open>getAsCString\<close> asserts that the
  data is a C string; \<open>Some s\<close> is data that is one, with \<open>s\<close> its text.
\<close>

datatype Initializer = ConstantDataSequential "string option" | OtherInitializer

text \<open>
  The base pointer of a constant address. \<^verbatim>\<open>getInitializer\<close> asserts that the global has
  an initializer; a declaration has none.
\<close>

datatype Constant =
    ConstantGlobal (isConstant: bool) (initializer: "Initializer option")
  | OtherConstant

datatype NameArgument =
    ConstantExpr (isGEPWithNoNotionalOverIndexing: bool) (basePtr: Constant)
  | OtherArgument

text \<open>
  The value operand of a store: the result of a call, with the callee's name and the first
  argument of the call, or anything else. \<^verbatim>\<open>getCalledFunction\<close> is null for an indirect
  call, so the callee's name is optional.
\<close>

datatype StoredValue =
    StoredCall (storedCallee: "string option") (getArgOperand0: NameArgument)
  | StoredOther

datatype User = StoreInst StoredValue | OtherUser

datatype LoadedFrom = GlobalVariable (users: "User list") | OtherLocation

datatype InstKind = LoadInst LoadedFrom | OtherInst

text \<open>An instruction is its address, which is its identity, and its kind.\<close>

type_synonym Instruction = "nat \<times> InstKind"

text \<open>
  The callee of an allocation call: its name, and the type of its first formal argument
  (\<^verbatim>\<open>allocFunction->getArg(0)->getType()\<close>). Every allocator of the two name sets takes at
  least one argument, so the callee is modelled with one.
\<close>

datatype Function = Function (fnName: string) (arg0Type: Type)

text \<open>
  A call recorded in \<^verbatim>\<open>allocSite\<close>: its own address, its callee (null when the call is
  indirect), its operand 0 when that operand is an instruction, and the instructions of
  the basic block it stands in, in order, itself included.
\<close>

record CallSite =
  address :: nat
  getCalledFunction :: "Function option"
  operand0Inst :: "Instruction option"
  parentBlock :: "Instruction list"

definition generic_alloc :: "string set" where
  "generic_alloc =
     {''kmalloc'', ''kzalloc'', ''__kmalloc'', ''__kmalloc_node'', ''kmalloc_node'',
      ''kzalloc_node'', ''kcalloc_node'', ''kcalloc'', ''kvzalloc'', ''kvzalloc_node''}"

definition specific_alloc :: "string set" where
  "specific_alloc = {''kmem_cache_alloc'', ''kmem_cache_alloc_node'', ''kmem_cache_zalloc''}"

section \<open>The leak registry's data\<close>

text \<open>A \<^verbatim>\<open>Value *\<close> used as a key or stored as a reference is its address.\<close>

type_synonym ValuePtr = nat

record CheckSrc =
  src1 :: "ValuePtr list"
  src2 :: "ValuePtr list"
  branchTaken :: "32 word"

type_synonym CheckInfo = "ValuePtr \<rightharpoonup> CheckSrc"

type_synonym CheckMap = "string \<rightharpoonup> CheckInfo"

record SiteInfo =
  TYPE' :: "32 word"
  fromSt :: "StructType option"
  fromValue :: "ValuePtr option"
  lenSt :: "StructType option"
  lenValue :: "ValuePtr option"
  leakCheckMap :: CheckMap

type_synonym LeakSourceInfo = "ValuePtr \<rightharpoonup> SiteInfo"

type_synonym LeakInfo = "32 word \<rightharpoonup> LeakSourceInfo"

section \<open>The flattened layout \<^verbatim>\<open>StructInfo\<close>\<close>

text \<open>
  The members that the operations below read or write. \<^verbatim>\<open>allocSite\<close> is a
  \<^verbatim>\<open>std::set\<close> of pointers; the list is the order in which the loop visits it.
\<close>

record StructInfo =
  arrayFlags :: "bool list"
  pointerFlags :: "bool list"
  unionFlags :: "bool list"
  fieldSize :: "32 word list"
  offsetMap :: "32 word list"
  fieldOffset :: "32 word list"
  fieldRealSize :: "32 word list"
  containers :: "(StructType \<times> 32 word) set"
  allocSize :: "64 word"
  allocSite :: "CallSite list"
  leakInfo :: LeakInfo

subsection \<open>Building the field vectors\<close>

definition addContainer :: "StructInfo \<Rightarrow> StructType \<Rightarrow> 32 word \<Rightarrow> StructInfo" where
  "addContainer this st offset = this\<lparr>containers := insert (st, offset) (containers this)\<rparr>"

definition addOffsetMap :: "StructInfo \<Rightarrow> 32 word \<Rightarrow> StructInfo" where
  "addOffsetMap this newOffsetMap = this\<lparr>offsetMap := offsetMap this @ [newOffsetMap]\<rparr>"

definition addField :: "StructInfo \<Rightarrow> 32 word \<Rightarrow> bool \<Rightarrow> bool \<Rightarrow> bool \<Rightarrow> StructInfo" where
  "addField this newFieldSize isArray isPointer isUnion =
     this\<lparr>fieldSize := fieldSize this @ [newFieldSize],
          arrayFlags := arrayFlags this @ [isArray],
          pointerFlags := pointerFlags this @ [isPointer],
          unionFlags := unionFlags this @ [isUnion]\<rparr>"

definition addFieldOffset :: "StructInfo \<Rightarrow> 32 word \<Rightarrow> StructInfo" where
  "addFieldOffset this newOffset = this\<lparr>fieldOffset := fieldOffset this @ [newOffset]\<rparr>"

definition addRealSize :: "StructInfo \<Rightarrow> 32 word \<Rightarrow> StructInfo" where
  "addRealSize this sz = this\<lparr>fieldRealSize := fieldRealSize this @ [sz]\<rparr>"

text \<open>\<^verbatim>\<open>fieldSize[0]\<close> on an empty vector reads out of range.\<close>

definition isEmpty :: "StructInfo \<Rightarrow> abort + bool" where
  "isEmpty this = (case fieldSize this of [] \<Rightarrow> Inl OutOfRange | s # _ \<Rightarrow> Inr (s = 0))"

definition appendFields :: "StructInfo \<Rightarrow> StructInfo \<Rightarrow> abort + StructInfo" where
  "appendFields this other =
     (case isEmpty other of
        Inl a \<Rightarrow> Inl a
      | Inr otherEmpty \<Rightarrow>
          Inr (this\<lparr>fieldSize := (if \<not> otherEmpty then fieldSize this @ fieldSize other
                                    else fieldSize this),
                    arrayFlags := arrayFlags this @ arrayFlags other,
                    pointerFlags := pointerFlags this @ pointerFlags other,
                    unionFlags := unionFlags this @ unionFlags other,
                    fieldRealSize := fieldRealSize this @ fieldRealSize other\<rparr>))"

text \<open>The loop of \<^verbatim>\<open>appendFieldOffset\<close>: a zero offset is passed over.\<close>

fun pushRebased :: "32 word \<Rightarrow> 32 word list \<Rightarrow> 32 word list \<Rightarrow> 32 word list" where
  "pushRebased base [] acc = acc"
| "pushRebased base (i # rest) acc =
     (if i = 0 then pushRebased base rest acc else pushRebased base rest (acc @ [i + base]))"

text \<open>\<^verbatim>\<open>fieldOffset.back()\<close> on an empty vector reads out of range.\<close>

definition appendFieldOffset :: "StructInfo \<Rightarrow> StructInfo \<Rightarrow> abort + StructInfo" where
  "appendFieldOffset this other =
     (if fieldOffset this = [] then Inl OutOfRange
      else Inr (this\<lparr>fieldOffset :=
                  pushRebased (last (fieldOffset this)) (fieldOffset other) (fieldOffset this)\<rparr>))"

subsection \<open>Queries\<close>

definition getSize :: "StructInfo \<Rightarrow> nat" where
  "getSize this = length (offsetMap this)"

definition getExpandedSize :: "StructInfo \<Rightarrow> nat" where
  "getExpandedSize this = length (arrayFlags this)"

text \<open>\<^verbatim>\<open>std::vector::at\<close> throws on an index out of range.\<close>

definition at :: "'a list \<Rightarrow> nat \<Rightarrow> abort + 'a" where
  "at xs i = (if i < length xs then Inr (xs ! i) else Inl OutOfRange)"

definition getOffset :: "StructInfo \<Rightarrow> nat \<Rightarrow> abort + 32 word" where
  "getOffset this off = at (offsetMap this) off"

definition getFieldOffset :: "StructInfo \<Rightarrow> nat \<Rightarrow> abort + 32 word" where
  "getFieldOffset this field = at (fieldOffset this) field"

definition getFieldRealSize :: "StructInfo \<Rightarrow> nat \<Rightarrow> abort + 32 word" where
  "getFieldRealSize this field = at (fieldRealSize this) field"

definition getContainer :: "StructInfo \<Rightarrow> StructType \<Rightarrow> 32 word \<Rightarrow> abort + StructType option" where
  "getContainer this st offset =
     (if isOpaque st then Inl AssertionFailed
      else if (st, offset) \<in> containers this then Inr (Some st) else Inr None)"

subsection \<open>The leak registry\<close>

text \<open>
  The first component of the result is what \<^verbatim>\<open>WARNING\<close> logged. The two statements after
  the failing assertion are never reached.
\<close>

definition addLeakSourceInfo ::
  "StructInfo \<Rightarrow> 32 word \<Rightarrow> ValuePtr \<Rightarrow> SiteInfo \<Rightarrow> string list \<times> (abort + StructInfo)" where
  "addLeakSourceInfo this offset V siteInfo =
     (case leakInfo this offset of
        None \<Rightarrow> ([], Inr (this\<lparr>leakInfo := (leakInfo this)(offset \<mapsto> [V \<mapsto> siteInfo])\<rparr>))
      | Some LSI \<Rightarrow>
          (case LSI V of
             None \<Rightarrow> ([], Inr (this\<lparr>leakInfo := (leakInfo this)(offset \<mapsto> LSI(V \<mapsto> siteInfo))\<rparr>))
           | Some old \<Rightarrow> ([''Are we trying to update siteInfo?''], Inl AssertionFailed)))"

definition getSiteInfo :: "StructInfo \<Rightarrow> 32 word \<Rightarrow> ValuePtr \<Rightarrow> SiteInfo option" where
  "getSiteInfo this offset V =
     (case leakInfo this offset of None \<Rightarrow> None | Some LSI \<Rightarrow> LSI V)"

subsection \<open>The allocation classifier\<close>

text \<open>The walk of \<^verbatim>\<open>getProducerOfArgument0\<close> from the start of the block to the call.\<close>

fun advance :: "Instruction list \<Rightarrow> nat \<Rightarrow> nat \<Rightarrow> nat option" where
  "advance [] currentInstruction k = None"
| "advance (x # rest) currentInstruction k =
     (if fst x = currentInstruction then Some k else advance rest currentInstruction (Suc k))"

definition getProducerOfArgument0 :: "CallSite \<Rightarrow> abort + Instruction option" where
  "getProducerOfArgument0 currentInstruction =
     (case operand0Inst currentInstruction of
        Some producer \<Rightarrow> Inr (Some producer)
      | None \<Rightarrow>
          (case advance (parentBlock currentInstruction) (address currentInstruction) 0 of
             None \<Rightarrow> Inl OutOfRange
           | Some 0 \<Rightarrow> Inr None
           | Some (Suc k) \<Rightarrow> Inr (Some (parentBlock currentInstruction ! k))))"

text \<open>\<^verbatim>\<open>std::string::find\<close> of a pattern, compared with \<^verbatim>\<open>npos\<close>.\<close>

fun startsWith :: "string \<Rightarrow> string \<Rightarrow> bool" where
  "startsWith [] s = True"
| "startsWith (p # ps) [] = False"
| "startsWith (p # ps) (c # cs) = (p = c \<and> startsWith ps cs)"

fun contains :: "string \<Rightarrow> string \<Rightarrow> bool" where
  "contains p [] = (p = [])"
| "contains p (c # cs) = (startsWith p (c # cs) \<or> contains p cs)"

text \<open>
  What one round of a loop does next: leave the function with a value, go on with the
  next element, or stop the process.
\<close>

datatype 'a step = Return 'a | Continue | Crash abort

text \<open>The loop over the users of the cache's global variable.\<close>

fun scanUsers :: "User list \<Rightarrow> string step" where
  "scanUsers [] = Continue"
| "scanUsers (StoreInst (StoredCall callee arg0) # rest) =
     (case callee of
        None \<Rightarrow> Crash NullDereference
      | Some name \<Rightarrow>
          (if contains ''kmem_cache_create'' name then
             (case arg0 of
                ConstantExpr noOverIndexing BasePtr \<Rightarrow>
                  (if noOverIndexing then
                     (case BasePtr of
                        ConstantGlobal const init \<Rightarrow>
                          (if const then
                             (case init of
                                None \<Rightarrow> Crash AssertionFailed
                              | Some (ConstantDataSequential CharArray) \<Rightarrow>
                                  (case CharArray of
                                     None \<Rightarrow> Crash AssertionFailed
                                   | Some StrValue \<Rightarrow> Return StrValue)
                              | Some OtherInitializer \<Rightarrow> scanUsers rest)
                           else scanUsers rest)
                      | OtherConstant \<Rightarrow> scanUsers rest)
                   else scanUsers rest)
              | OtherArgument \<Rightarrow> scanUsers rest)
           else scanUsers rest))"
| "scanUsers (StoreInst StoredOther # rest) = scanUsers rest"
| "scanUsers (OtherUser # rest) = scanUsers rest"

text \<open>
  The global variable behind the cache handle. The formal argument of the callee is never
  a global variable, so the first \<^verbatim>\<open>dyn_cast\<close> yields null and the global can only come
  from the pointer operand of a load.
\<close>

fun loadedGlobal :: "Instruction \<Rightarrow> User list option" where
  "loadedGlobal (a, LoadInst (GlobalVariable us)) = Some us"
| "loadedGlobal (a, LoadInst OtherLocation) = None"
| "loadedGlobal (a, OtherInst) = None"

text \<open>The body of the loop over the allocation sites, for a dedicated-cache callee.\<close>

definition traceSite :: "CallSite \<Rightarrow> Function \<Rightarrow> string step" where
  "traceSite CI allocFunction =
     (let stype = getStructType (Some (arg0Type allocFunction)) in
      case getProducerOfArgument0 CI of
        Inl a \<Rightarrow> Crash a
      | Inr None \<Rightarrow> Continue
      | Inr (Some previousInstruction) \<Rightarrow>
          (case stype of
             None \<Rightarrow> Continue
           | Some st \<Rightarrow>
               (if isPointerTy (arg0Type allocFunction) then
                  (case loadedGlobal previousInstruction of
                     None \<Rightarrow> Continue
                   | Some globalUsers \<Rightarrow>
                       (if getName st = ''struct.kmem_cache'' then scanUsers globalUsers
                        else Continue))
                else Continue)))"

text \<open>
  The loop over \<^verbatim>\<open>allocSite\<close>. It carries \<^verbatim>\<open>found_generic_alloc\<close> and ends with the name a
  trace returned, or with the flag when every site has been visited.
\<close>

fun siteLoop :: "CallSite list \<Rightarrow> bool \<Rightarrow> abort + (string + bool)" where
  "siteLoop [] found_generic_alloc = Inr (Inr found_generic_alloc)"
| "siteLoop (CI # rest) found_generic_alloc =
     (case getCalledFunction CI of
        None \<Rightarrow> Inl NullDereference
      | Some allocFunction \<Rightarrow>
          (let found = (if fnName allocFunction \<in> generic_alloc then True
                        else found_generic_alloc)
           in if fnName allocFunction \<in> specific_alloc then
                (case traceSite CI allocFunction of
                   Crash a \<Rightarrow> Inl a
                 | Return name \<Rightarrow> Inr (Inl name)
                 | Continue \<Rightarrow> siteLoop rest found)
              else siteLoop rest found))"

text \<open>
  The comparison \<^verbatim>\<open>pow(2,i) < getAllocSize()\<close> converts the 64-bit size to a double:
  rounding to the nearest value with a 53-bit significand, ties to even. Every such value
  is an integer, so the model stays in the natural numbers.
\<close>

fun bitLength :: "nat \<Rightarrow> nat" where
  "bitLength n = (if n = 0 then 0 else Suc (bitLength (n div 2)))"

declare bitLength.simps [simp del]

definition toDouble :: "64 word \<Rightarrow> nat" where
  "toDouble w =
     (let n = unat w in
      if n < 2 ^ 53 then n
      else let e = bitLength n - 53; q = n div 2 ^ e; r = n mod 2 ^ e; h = 2 ^ (e - 1)
           in if h < r \<or> (r = h \<and> odd q) then (q + 1) * 2 ^ e else q * 2 ^ e)"

text \<open>\<^verbatim>\<open>int i = 3; while (pow(2,i) < getAllocSize()) i++;\<close>\<close>

function bucketLoop :: "nat \<Rightarrow> nat \<Rightarrow> nat" where
  "bucketLoop i allocSz = (if 2 ^ i < allocSz then bucketLoop (i + 1) allocSz else i)"
  by pat_completeness auto
termination
  by (relation "measure (\<lambda>(i, allocSz). allocSz - 2 ^ i)") (auto intro!: diff_less_mono2)

declare bucketLoop.simps [simp del]

text \<open>
  The tail of \<^verbatim>\<open>getAllocCache\<close> once a generic allocator has been seen. Converting
  \<open>2\<^sup>6\<^sup>4\<close> back to a 64-bit integer is undefined in C++: the model marks it as
  \<open>UndefinedConversion\<close> and does not choose the value that one compiler or another
  produces there. No statement about the returned name below reaches that case.
\<close>

definition genericCache :: "64 word \<Rightarrow> abort + string" where
  "genericCache allocSz =
     (let i = bucketLoop 3 (toDouble allocSz) in
      if 64 \<le> i then Inl UndefinedConversion
      else let largerAlloc = (2::nat) ^ i in
        if largerAlloc < 8192 \<and> 4096 \<le> largerAlloc then Inr ''kmalloc-8k''
        else if largerAlloc < 4096 \<and> 2048 \<le> largerAlloc then Inr ''kmalloc-4k''
        else if largerAlloc < 2048 \<and> 1024 \<le> largerAlloc then Inr ''kmalloc-2k''
        else if largerAlloc < 1024 \<and> 512 \<le> largerAlloc then Inr ''kmalloc-1k''
        else Inr (''kmalloc-'' @ to_string (2 ^ i)))"

definition getAllocCache :: "StructInfo \<Rightarrow> abort + string" where
  "getAllocCache this =
     (case siteLoop (allocSite this) False of
        Inl a \<Rightarrow> Inl a
      | Inr (Inl name) \<Rightarrow> Inr name
      | Inr (Inr found_generic_alloc) \<Rightarrow>
          (if found_generic_alloc then genericCache (allocSize this) else Inr ''''))"

text \<open>A layout as its constructor leaves it: every vector and every map empty.\<close>

definition freshLayout :: StructInfo where
  "freshLayout =
     \<lparr>arrayFlags = [], pointerFlags = [], unionFlags = [], fieldSize = [], offsetMap = [],
      fieldOffset = [], fieldRealSize = [], containers = {}, allocSize = 0, allocSite = [],
      leakInfo = Map.empty\<rparr>"

section \<open>The embedding resolver\<close>

text \<open>
  The header declares \<^verbatim>\<open>StructAnalyzer::addStructInfo\<close>, \<^verbatim>\<open>computeStructInfo\<close> and
  \<^verbatim>\<open>addContainer\<close> without their bodies. This section models them from the specification
  (section 4.2), on top of the field-building operations of the header.
\<close>

text \<open>
  Modelled from the spec: the aggregate type declarations that \<^verbatim>\<open>addStructInfo\<close> reads
  (the body of \<^verbatim>\<open>addStructInfo\<close> is missing). An aggregate is its type and its declared
  fields in order. A declared field carries the byte offset that the target's layout rules
  give it; it is either a single expanded field (pointer, scalar, union or array of
  scalars) with its flags and real size, or an aggregate embedded by value.
\<close>

datatype Aggregate = Aggregate (realType: StructType) (declaredFields: "Field list")
  and Field =
    Plain (byteOffset: "32 word") (isArrayField: bool) (isPointerField: bool)
      (isUnionField: bool) (realSize: "32 word")
  | Embedded (byteOffset: "32 word") (embedded: Aggregate)

fun isPlain :: "Field \<Rightarrow> bool" where
  "isPlain (Plain off a p u rs) = True"
| "isPlain (Embedded off sub) = False"

text \<open>\<^verbatim>\<open>StructAnalyzer::structInfoMap\<close>.\<close>

type_synonym StructInfoMap = "StructType \<rightharpoonup> StructInfo"

text \<open>
  Modelled from the spec: \<^verbatim>\<open>StructAnalyzer::addContainer\<close> (body missing), step 6 of the
  flattening: the embedded type gains the pair of the parent type and the byte offset in
  its container set.
\<close>

definition registerContainer ::
  "StructType \<Rightarrow> StructType \<Rightarrow> StructInfo \<Rightarrow> 32 word \<Rightarrow> StructInfoMap \<Rightarrow> StructInfoMap" where
  "registerContainer container containeeType containee offset m =
     m(containeeType \<mapsto> addContainer containee container offset)"

text \<open>
  Modelled from the spec: step 2 of the flattening, the size entry of the embedding field
  is the expanded-field count of the embedded layout. The entry is absent when the
  embedded layout \<^verbatim>\<open>isEmpty\<close>, and then nothing is written.
\<close>

definition setEmbeddingSize :: "StructInfo \<Rightarrow> nat \<Rightarrow> nat \<Rightarrow> StructInfo" where
  "setEmbeddingSize this numField count =
     (if numField < length (fieldSize this)
      then this\<lparr>fieldSize := (fieldSize this)[numField := of_nat count]\<rparr> else this)"

text \<open>
  Modelled from the spec: \<^verbatim>\<open>computeStructInfo\<close> and \<^verbatim>\<open>addStructInfo\<close> (bodies missing),
  section 4.2. \<^verbatim>\<open>computeStructInfo\<close> returns the memoized layout or computes it.
  \<^verbatim>\<open>addStructInfo\<close> processes the declared fields in order and publishes the layout to the
  cache when it is complete. \<open>addFields\<close> is its loop; \<open>numField\<close> is the expanded
  index at which the next declared field begins. A single field records its byte offset,
  its place in the offset map, its flags with size 1 and its real size. An embedded field
  records its byte offset and its place in the offset map, obtains the embedded layout,
  splices its vectors and its rebased offsets, and registers the embedding with the
  embedded type. The process-wide largest struct (step 7) is left out: no statement below
  reads it.
\<close>

fun computeStructInfo :: "Aggregate \<Rightarrow> StructInfoMap \<Rightarrow> abort + (StructInfo \<times> StructInfoMap)"
  and addStructInfo :: "Aggregate \<Rightarrow> StructInfoMap \<Rightarrow> abort + (StructInfo \<times> StructInfoMap)"
  and addFields ::
    "StructType \<Rightarrow> Field list \<Rightarrow> StructInfo \<Rightarrow> nat \<Rightarrow> StructInfoMap
       \<Rightarrow> abort + (StructInfo \<times> StructInfoMap)"
where
  "computeStructInfo (Aggregate st fs) m =
     (case m st of
        Some stInfo \<Rightarrow> Inr (stInfo, m)
      | None \<Rightarrow> addStructInfo (Aggregate st fs) m)"
| "addStructInfo (Aggregate st fs) m =
     (case addFields st fs freshLayout 0 m of
        Inl a \<Rightarrow> Inl a
      | Inr (stInfo, m') \<Rightarrow> Inr (stInfo, m'(st \<mapsto> stInfo)))"
| "addFields st [] stInfo numField m = Inr (stInfo, m)"
| "addFields st (Plain off isArray isPointer isUnion sz # rest) stInfo numField m =
     addFields st rest
       (addRealSize
          (addField (addOffsetMap (addFieldOffset stInfo off) (of_nat numField))
             1 isArray isPointer isUnion)
          sz)
       (numField + 1) m"
| "addFields st (Embedded off sub # rest) stInfo numField m =
     (case computeStructInfo sub m of
        Inl a \<Rightarrow> Inl a
      | Inr (subInfo, m1) \<Rightarrow>
          (case appendFields (addOffsetMap (addFieldOffset stInfo off) (of_nat numField)) subInfo of
             Inl a \<Rightarrow> Inl a
           | Inr spliced \<Rightarrow>
               (case appendFieldOffset
                       (setEmbeddingSize spliced numField (getExpandedSize subInfo)) subInfo of
                  Inl a \<Rightarrow> Inl a
                | Inr rebased \<Rightarrow>
                    addFields st rest rebased (numField + getExpandedSize subInfo)
                      (registerContainer st (realType sub) subInfo off m1))))"

section \<open>The specification's vocabulary\<close>

text \<open>
  The definitions of this section follow the wording of the specification; the theorems
  compare them with the operations above.
\<close>

text \<open>
  The name of a size bucket \<open>2\<^sup>i\<close> as the guards of \<^verbatim>\<open>getAllocCache\<close> assign it: four
  named classes, and the decimal value of the bucket for every other exponent.
\<close>

definition bucketName :: "nat \<Rightarrow> string" where
  "bucketName i =
     (if i = 12 then ''kmalloc-8k'' else if i = 11 then ''kmalloc-4k''
      else if i = 10 then ''kmalloc-2k'' else if i = 9 then ''kmalloc-1k''
      else ''kmalloc-'' @ to_string (2 ^ i))"

definition targetsGeneric :: "CallSite \<Rightarrow> bool" where
  "targetsGeneric CI =
     (case getCalledFunction CI of None \<Rightarrow> False | Some f \<Rightarrow> fnName f \<in> generic_alloc)"

definition targetsDedicated :: "CallSite \<Rightarrow> bool" where
  "targetsDedicated CI =
     (case getCalledFunction CI of None \<Rightarrow> False | Some f \<Rightarrow> fnName f \<in> specific_alloc)"

text \<open>
  What one allocation site contributes to the name: the name its trace recovers, nothing,
  or the end of the process.
\<close>

definition siteOutcome :: "CallSite \<Rightarrow> string step" where
  "siteOutcome CI =
     (case getCalledFunction CI of
        None \<Rightarrow> Crash NullDereference
      | Some f \<Rightarrow> if fnName f \<in> specific_alloc then traceSite CI f else Continue)"

text \<open>
  A user of the cache's global from which the scan recovers no name and at which it does
  not stop: anything but a store of a call result; a store of the result of a direct call
  whose callee's name lacks \<^verbatim>\<open>kmem_cache_create\<close>; or a store of such a creation call whose
  name argument is not a constant address into a constant global with character data.
\<close>

fun passedOver :: "User \<Rightarrow> bool" where
  "passedOver OtherUser = True"
| "passedOver (StoreInst StoredOther) = True"
| "passedOver (StoreInst (StoredCall None arg0)) = False"
| "passedOver (StoreInst (StoredCall (Some name) arg0)) =
     (\<not> contains ''kmem_cache_create'' name
      \<or> (case arg0 of
            OtherArgument \<Rightarrow> True
          | ConstantExpr noOverIndexing BasePtr \<Rightarrow>
              \<not> noOverIndexing
              \<or> (case BasePtr of
                    OtherConstant \<Rightarrow> True
                  | ConstantGlobal const init \<Rightarrow> \<not> const \<or> init = Some OtherInitializer)))"

text \<open>The five per-field vectors have one length, the expanded-field count.\<close>

definition fieldVectorsAligned :: "StructInfo \<Rightarrow> bool" where
  "fieldVectorsAligned this =
     (length (arrayFlags this) = getExpandedSize this
      \<and> length (pointerFlags this) = getExpandedSize this
      \<and> length (unionFlags this) = getExpandedSize this
      \<and> length (fieldSize this) = getExpandedSize this
      \<and> length (fieldRealSize this) = getExpandedSize this)"

text \<open>The vectors that only ever grow at the end while a layout is built.\<close>

definition extends :: "StructInfo \<Rightarrow> StructInfo \<Rightarrow> bool" where
  "extends a b =
     (prefix (arrayFlags a) (arrayFlags b) \<and> prefix (pointerFlags a) (pointerFlags b)
      \<and> prefix (unionFlags a) (unionFlags b) \<and> prefix (fieldRealSize a) (fieldRealSize b)
      \<and> prefix (fieldOffset a) (fieldOffset b) \<and> prefix (offsetMap a) (offsetMap b))"

text \<open>
  What the resolver leaves of the cache: an entry stays, and its container set only grows.
\<close>

definition keeps :: "StructInfoMap \<Rightarrow> StructInfoMap \<Rightarrow> bool" where
  "keeps m m' =
     (\<forall>t info. m t = Some info \<longrightarrow>
        (\<exists>info'. m' t = Some info' \<and> containers info \<subseteq> containers info'))"

section \<open>Sample inputs\<close>



definition kmallocCall :: CallSite where
  "kmallocCall =
     \<lparr>address = 10, getCalledFunction = Some (Function ''kmalloc'' ScalarTy),
      operand0Inst = None, parentBlock = [(10, OtherInst)]\<rparr>"


definition kmem_cache_ptr :: Type where
  "kmem_cache_ptr = PointerTy (StructTy (StructType ''struct.kmem_cache'' False))"

text \<open>
  A store of \<^verbatim>\<open>kmem_cache_create("my_cache", ...)\<close> into the cache's global, and a load
  of that global.
\<close>

definition createStore :: User where
  "createStore =
     StoreInst (StoredCall (Some ''kmem_cache_create'')
       (ConstantExpr True (ConstantGlobal True (Some (ConstantDataSequential (Some ''my_cache''))))))"

definition cacheLoad :: Instruction where
  "cacheLoad = (5, LoadInst (GlobalVariable [createStore]))"

text \<open>
  A dedicated-cache allocation that opens its basic block; the load that produces its
  first operand stands in another block.
\<close>

definition hoistedCall :: CallSite where
  "hoistedCall =
     \<lparr>address = 20, getCalledFunction = Some (Function ''kmem_cache_alloc'' kmem_cache_ptr),
      operand0Inst = Some cacheLoad, parentBlock = [(20, OtherInst)]\<rparr>"

text \<open>
  A dedicated-cache allocation whose first operand is not an instruction and that follows
  the load in its block.
\<close>

definition followingCall :: CallSite where
  "followingCall =
     \<lparr>address = 21, getCalledFunction = Some (Function ''kmem_cache_alloc'' kmem_cache_ptr),
      operand0Inst = None, parentBlock = [cacheLoad, (21, OtherInst)]\<rparr>"

text \<open>The same call opening its block.\<close>

definition leadingCall :: CallSite where
  "leadingCall = followingCall\<lparr>parentBlock := [(21, OtherInst)]\<rparr>"

text \<open>
  A dedicated-cache allocation whose cache global is written by a store of the result of
  an indirect call.
\<close>

definition indirectStoreCall :: CallSite where
  "indirectStoreCall =
     \<lparr>address = 30, getCalledFunction = Some (Function ''kmem_cache_alloc'' kmem_cache_ptr),
      operand0Inst = Some (6, LoadInst (GlobalVariable [StoreInst (StoredCall None OtherArgument)])),
      parentBlock = [(6, LoadInst (GlobalVariable [StoreInst (StoredCall None OtherArgument)])),
                     (30, OtherInst)]\<rparr>"

definition otherCall :: CallSite where
  "otherCall =
     \<lparr>address = 40, getCalledFunction = Some (Function ''vmalloc'' ScalarTy),
      operand0Inst = None, parentBlock = [(40, OtherInst)]\<rparr>"

definition typeWith :: "CallSite list \<Rightarrow> StructInfo" where
  "typeWith sites = freshLayout\<lparr>allocSize := 500, allocSite := sites\<rparr>"

definition site0 :: SiteInfo where
  "site0 =
     \<lparr>TYPE' = 1, fromSt = None, fromValue = Some 11, lenSt = None, lenValue = Some 12,
      leakCheckMap = Map.empty\<rparr>"

definition site1 :: SiteInfo where
  "site1 = site0\<lparr>TYPE' := 2\<rparr>"

definition registry0 :: StructInfo where
  "registry0 = freshLayout\<lparr>leakInfo := [8 \<mapsto> [3 \<mapsto> site0]]\<rparr>"

definition innerType :: StructType where
  "innerType = StructType ''struct.list_head'' False"

text \<open>
  Sample declarations: an inner aggregate of two four-byte scalars, the same with a leading
  zero-length array (so that two of its fields have relative offset 0), and an outer
  aggregate of one scalar followed by an embedded aggregate at byte offset 4.
\<close>

definition outerType :: StructType where
  "outerType = StructType ''struct.outer'' False"

definition innerDecl :: Aggregate where
  "innerDecl = Aggregate innerType [Plain 0 False False False 4, Plain 4 False False False 4]"

definition paddedDecl :: Aggregate where
  "paddedDecl =
     Aggregate innerType
       [Plain 0 True False False 0, Plain 0 False False False 4, Plain 4 False False False 4]"

definition outerDecl :: "Aggregate \<Rightarrow> Aggregate" where
  "outerDecl sub = Aggregate outerType [Plain 0 False True False 4, Embedded 4 sub]"

text \<open>The layouts that the resolver computes for \<open>paddedDecl\<close> and for its embedding.\<close>

definition paddedLayout :: StructInfo where
  "paddedLayout =
     \<lparr>arrayFlags = [True, False, False], pointerFlags = [False, False, False],
      unionFlags = [False, False, False], fieldSize = [1, 1, 1], offsetMap = [0, 1, 2],
      fieldOffset = [0, 0, 4], fieldRealSize = [0, 4, 4], containers = {}, allocSize = 0,
      allocSite = [], leakInfo = Map.empty\<rparr>"

definition outerPaddedLayout :: StructInfo where
  "outerPaddedLayout =
     \<lparr>arrayFlags = [False, True, False, False], pointerFlags = [True, False, False, False],
      unionFlags = [False, False, False, False], fieldSize = [1, 3, 1, 1], offsetMap = [0, 1],
      fieldOffset = [0, 4, 8], fieldRealSize = [4, 0, 4, 4], containers = {}, allocSize = 0,
      allocSite = [], leakInfo = Map.empty\<rparr>"

text \<open>
  The outer layout at the moment of the splice: its first field is in place, and the byte
  offset and the offset-map entry of the embedding field have been recorded.
\<close>

definition embeddingStart :: StructInfo where
  "embeddingStart =
     addOffsetMap
       (addFieldOffset
          (addRealSize (addField (addOffsetMap (addFieldOffset freshLayout 0) 0) 1 False True False) 4)
          4)
       1"

text \<open>
  An aggregate whose own first field is its only one at relative offset 0, but which embeds
  \<open>paddedDecl\<close> at byte offset 4; and an outer aggregate that embeds it at byte offset 8.
\<close>

definition midType :: StructType where
  "midType = StructType ''struct.mid'' False"

definition midDecl :: Aggregate where
  "midDecl = Aggregate midType [Plain 0 False False False 4, Embedded 4 paddedDecl]"

definition nestedDecl :: Aggregate where
  "nestedDecl = Aggregate outerType [Plain 0 False True False 8, Embedded 8 midDecl]"

section \<open>Theorems\<close>

subsection \<open>Rendering of comparison operators\<close>

text \<open>
  C9. The operator of a guard comparison is narrowed to the branch outcome: for each of
  the six comparison classes, the true branch alone renders the operator, the false
  branch alone renders its negation, and both branches render the operator followed by
  a star.
\<close>

theorem dumpPred_narrowed:
  "comparisonOf Pred = Some c \<Longrightarrow> dumpPred Pred taken = narrowed c (outcomeOf taken)"
  by (cases Pred) (auto simp: byBranch_def outcomeOf_def)

theorem dumpPred_narrowed_witness:
  "comparisonOf ICMP_SLT = Some Less
   \<and> dumpPred ICMP_SLT 0 = '' [<] ''
   \<and> dumpPred ICMP_SLT 1 = '' [>=] ''
   \<and> dumpPred ICMP_SLT 2 = '' [<]* ''"
  using dumpPred_narrowed [of ICMP_SLT Less 0] dumpPred_narrowed [of ICMP_SLT Less 1]
    dumpPred_narrowed [of ICMP_SLT Less 2]
  by (simp add: outcomeOf_def)

subsection \<open>Rendering of operands\<close>

text \<open>
  C8. For a field access, a base operand that is not a pointer, a base type that is not an
  aggregate and a field index that is not a constant each end the process at an assertion,
  after the opening bar and before any descriptor is written.
\<close>

theorem dumpCmpSrc_contract_violation:
  "\<not> isPointerTy pty
   \<or> (\<exists>baseType. pty = PointerTy baseType \<and> (\<forall>st. baseType \<noteq> StructTy st))
   \<or> (2 < length ops \<and> ops ! 2 = OtherOp)
   \<Longrightarrow> dumpCmpSrc getScopeName (GetElementPtrInst pty ops) = ([RES_REPORT ''| ''], Some AssertionFailed)
       \<and> \<not> rendered (dumpCmpSrc getScopeName (GetElementPtrInst pty ops))"
  by (auto simp: rendered_def split: Type.splits Operand.splits)

theorem dumpCmpSrc_contract_violation_witness:
  "dumpCmpSrc getName (GetElementPtrInst ScalarTy [OtherOp, ConstantIntOp 0, ConstantIntOp 1])
     = ([RES_REPORT ''| ''], Some AssertionFailed)
   \<and> dumpCmpSrc getName (GetElementPtrInst (PointerTy ScalarTy) [OtherOp, ConstantIntOp 0, ConstantIntOp 1])
     = ([RES_REPORT ''| ''], Some AssertionFailed)
   \<and> dumpCmpSrc getName (GetElementPtrInst (PointerTy (StructTy innerType)) [OtherOp, ConstantIntOp 0, OtherOp])
     = ([RES_REPORT ''| ''], Some AssertionFailed)
   \<and> rendered (dumpCmpSrc getName
        (GetElementPtrInst (PointerTy (StructTy innerType)) [OtherOp, ConstantIntOp 0, ConstantIntOp 1]))"
proof -
  have a: "\<not> isPointerTy ScalarTy" by simp
  have b: "\<exists>baseType. PointerTy ScalarTy = PointerTy baseType \<and> (\<forall>st. baseType \<noteq> StructTy st)"
    by simp
  have c: "2 < length [OtherOp, ConstantIntOp 0, OtherOp]
           \<and> [OtherOp, ConstantIntOp 0, OtherOp] ! 2 = OtherOp"
    by simp
  have d: "rendered (dumpCmpSrc getName
        (GetElementPtrInst (PointerTy (StructTy innerType)) [OtherOp, ConstantIntOp 0, ConstantIntOp 1]))"
    by (simp add: rendered_def)
  from a b c d show ?thesis
    using dumpCmpSrc_contract_violation
      [of ScalarTy "[OtherOp, ConstantIntOp 0, ConstantIntOp 1]" getName]
      dumpCmpSrc_contract_violation
      [of "PointerTy ScalarTy" "[OtherOp, ConstantIntOp 0, ConstantIntOp 1]" getName]
      dumpCmpSrc_contract_violation
      [of "PointerTy (StructTy innerType)" "[OtherOp, ConstantIntOp 0, OtherOp]" getName]
    by blast
qed

subsection \<open>Container queries\<close>

text \<open>
  C10. For a struct type that is not opaque, \<^verbatim>\<open>getContainer\<close> returns the queried type
  itself when the pair of the type and the offset is in the layout's container set, and
  null when it is not; for an opaque type the assertion fails.
\<close>

theorem getContainer_returns_queried_type:
  "(\<not> isOpaque st \<and> (st, offset) \<in> containers this \<longrightarrow> getContainer this st offset = Inr (Some st))
   \<and> (\<not> isOpaque st \<and> (st, offset) \<notin> containers this \<longrightarrow> getContainer this st offset = Inr None)
   \<and> (isOpaque st \<longrightarrow> getContainer this st offset = Inl AssertionFailed)"
  by (simp add: getContainer_def)

theorem getContainer_returns_queried_type_witness:
  "getContainer (addContainer freshLayout innerType 8) innerType 8 = Inr (Some innerType)
   \<and> getContainer (addContainer freshLayout innerType 8) innerType 16 = Inr None
   \<and> getContainer (addContainer freshLayout innerType 8) (StructType ''struct.opaque'' True) 8
       = Inl AssertionFailed"
proof -
  let ?info = "addContainer freshLayout innerType 8"
  have a: "\<not> isOpaque innerType \<and> (innerType, 8) \<in> containers ?info"
    by (simp add: innerType_def addContainer_def)
  have b: "\<not> isOpaque innerType \<and> (innerType, 16) \<notin> containers ?info"
    by (simp add: innerType_def addContainer_def freshLayout_def)
  have c: "isOpaque (StructType ''struct.opaque'' True)"
    by simp
  from a b c show ?thesis
    using getContainer_returns_queried_type [of innerType 8 ?info]
      getContainer_returns_queried_type [of innerType 16 ?info]
      getContainer_returns_queried_type [of "StructType ''struct.opaque'' True" 8 ?info]
    by blast
qed

subsection \<open>The leak registry\<close>

text \<open>
  C2, as the claim states it, fails: recording again the very content that is stored
  under a key is not a no-operation. The registry below holds \<open>site0\<close> at offset 8 and
  site 3; recording \<open>site0\<close> there again logs the warning and fails the assertion.
\<close>

theorem addLeakSourceInfo_identical_counterexample:
  "getSiteInfo registry0 8 3 = Some site0
   \<and> addLeakSourceInfo registry0 8 3 site0
       = ([''Are we trying to update siteInfo?''], Inl AssertionFailed)
   \<and> addLeakSourceInfo registry0 8 3 site0 \<noteq> ([], Inr registry0)"
  by (simp add: registry0_def freshLayout_def getSiteInfo_def addLeakSourceInfo_def)

text \<open>
  C2, amended. When the key is present, whatever the stored content and whatever the new
  content, \<^verbatim>\<open>addLeakSourceInfo\<close> logs the warning and fails the assertion; when the key is
  absent it stores the record, and \<^verbatim>\<open>getSiteInfo\<close> retrieves it.
\<close>

theorem addLeakSourceInfo_present_fatal_absent_stored:
  "(getSiteInfo this offset V = Some old \<longrightarrow>
      addLeakSourceInfo this offset V siteInfo
        = ([''Are we trying to update siteInfo?''], Inl AssertionFailed))
   \<and> (getSiteInfo this offset V = None \<longrightarrow>
        (\<exists>this'. addLeakSourceInfo this offset V siteInfo = ([], Inr this')
                 \<and> getSiteInfo this' offset V = Some siteInfo))"
  by (auto simp: getSiteInfo_def addLeakSourceInfo_def split: option.splits)

theorem addLeakSourceInfo_present_fatal_absent_stored_witness:
  "addLeakSourceInfo registry0 8 3 site1
     = ([''Are we trying to update siteInfo?''], Inl AssertionFailed)
   \<and> (\<exists>this'. addLeakSourceInfo registry0 8 4 site1 = ([], Inr this')
               \<and> getSiteInfo this' 8 4 = Some site1)
   \<and> (\<exists>this'. addLeakSourceInfo registry0 16 3 site1 = ([], Inr this')
               \<and> getSiteInfo this' 16 3 = Some site1)"
proof -
  have a: "getSiteInfo registry0 8 3 = Some site0"
    by (simp add: registry0_def freshLayout_def getSiteInfo_def)
  have b: "getSiteInfo registry0 8 4 = None"
    by (simp add: registry0_def freshLayout_def getSiteInfo_def)
  have c: "getSiteInfo registry0 16 3 = None"
    by (simp add: registry0_def freshLayout_def getSiteInfo_def)
  from a b c show ?thesis
    using addLeakSourceInfo_present_fatal_absent_stored [of registry0 8 3 site0 site1]
      addLeakSourceInfo_present_fatal_absent_stored [of registry0 8 4 site0 site1]
      addLeakSourceInfo_present_fatal_absent_stored [of registry0 16 3 site0 site1]
    by blast
qed


subsection \<open>The field vectors\<close>


lemma appendFields_result:
  "isEmpty other = Inr e \<Longrightarrow>
   appendFields this other =
     Inr (this\<lparr>fieldSize := (if \<not> e then fieldSize this @ fieldSize other else fieldSize this),
               arrayFlags := arrayFlags this @ arrayFlags other,
               pointerFlags := pointerFlags this @ pointerFlags other,
               unionFlags := unionFlags this @ unionFlags other,
               fieldRealSize := fieldRealSize this @ fieldRealSize other\<rparr>)"
  by (simp add: appendFields_def)

text \<open>
  No layout that \<^verbatim>\<open>isEmpty\<close> reports as empty can be spliced without putting the size
  vector out of step: with equal lengths on both sides before, the lengths differ after.
\<close>

lemma appendFields_isEmpty_misaligns:
  assumes "fieldVectorsAligned this" and "fieldVectorsAligned other"
    and "isEmpty other = Inr True" and "appendFields this other = Inr this'"
  shows "length (fieldSize this') < length (arrayFlags this')"
proof -
  from assms(3) have "fieldSize other \<noteq> []"
    by (auto simp: isEmpty_def split: list.splits)
  then have "0 < length (fieldSize other)"
    by simp
  with assms(2) have "0 < length (arrayFlags other)"
    by (simp only: fieldVectorsAligned_def getExpandedSize_def)
  moreover from assms(1) have "length (fieldSize this) = length (arrayFlags this)"
    by (simp add: fieldVectorsAligned_def getExpandedSize_def)
  moreover from assms(4) have "fieldSize this' = fieldSize this"
    "arrayFlags this' = arrayFlags this @ arrayFlags other"
    unfolding appendFields_result [OF assms(3)] by auto
  ultimately show ?thesis by simp
qed





subsection \<open>The allocation classifier: generic allocators\<close>


lemma bucketLoop_least:
  "i0 \<le> bucketLoop i0 d \<and> d \<le> 2 ^ bucketLoop i0 d
   \<and> (\<forall>j. i0 \<le> j \<and> j < bucketLoop i0 d \<longrightarrow> 2 ^ j < d)"
proof (induction i0 d rule: bucketLoop.induct)
  case (1 i d)
  show ?case
  proof (cases "2 ^ i < d")
    case True
    then have eq: "bucketLoop i d = bucketLoop (i + 1) d"
      by (subst bucketLoop.simps) simp
    from 1 [OF True] have ih: "i + 1 \<le> bucketLoop (i + 1) d"
      "d \<le> 2 ^ bucketLoop (i + 1) d"
      "\<forall>j. i + 1 \<le> j \<and> j < bucketLoop (i + 1) d \<longrightarrow> 2 ^ j < d"
      by auto
    have "2 ^ j < d" if "i \<le> j" "j < bucketLoop (i + 1) d" for j
    proof (cases "j = i")
      case True
      with \<open>2 ^ i < d\<close> show ?thesis by simp
    next
      case False
      with that ih(3) show ?thesis by auto
    qed
    with ih eq show ?thesis by auto
  next
    case False
    then have "bucketLoop i d = i"
      by (subst bucketLoop.simps) simp
    with False show ?thesis by auto
  qed
qed


lemma pow2_ranges:
  "((2::nat) ^ i < 8192 \<and> 4096 \<le> (2::nat) ^ i) = (i = 12)"
  "((2::nat) ^ i < 4096 \<and> 2048 \<le> (2::nat) ^ i) = (i = 11)"
  "((2::nat) ^ i < 2048 \<and> 1024 \<le> (2::nat) ^ i) = (i = 10)"
  "((2::nat) ^ i < 1024 \<and> 512 \<le> (2::nat) ^ i) = (i = 9)"
proof -
  have lt: "((2::nat) ^ i < 2 ^ k) = (i < k)" for k by simp
  have le: "((2::nat) ^ k \<le> 2 ^ i) = (k \<le> i)" for k by simp
  show "((2::nat) ^ i < 8192 \<and> 4096 \<le> (2::nat) ^ i) = (i = 12)"
    using lt [of 13] le [of 12] by auto
  show "((2::nat) ^ i < 4096 \<and> 2048 \<le> (2::nat) ^ i) = (i = 11)"
    using lt [of 12] le [of 11] by auto
  show "((2::nat) ^ i < 2048 \<and> 1024 \<le> (2::nat) ^ i) = (i = 10)"
    using lt [of 11] le [of 10] by auto
  show "((2::nat) ^ i < 1024 \<and> 512 \<le> (2::nat) ^ i) = (i = 9)"
    using lt [of 10] le [of 9] by auto
qed

lemma genericCache_bucket:
  assumes "unat allocSz < 2 ^ 53"
  shows "genericCache allocSz = Inr (bucketName (bucketLoop 3 (unat allocSz)))"
proof -
  have d: "toDouble allocSz = unat allocSz"
    using assms by (simp add: toDouble_def Let_def)
  let ?i = "bucketLoop 3 (unat allocSz)"
  have "\<not> 64 \<le> ?i"
  proof
    assume "64 \<le> ?i"
    then have "3 \<le> (53::nat) \<and> 53 < ?i" by simp
    with bucketLoop_least [of 3 "unat allocSz"] have "2 ^ 53 < unat allocSz" by blast
    with assms show False by simp
  qed
  then show ?thesis
    by (simp add: genericCache_def d Let_def pow2_ranges bucketName_def)
qed

lemma genericCache_examples:
  "genericCache 500 = Inr ''kmalloc-1k''"
  "genericCache 3000 = Inr ''kmalloc-8k''"
  "genericCache 9000 = Inr ''kmalloc-16384''"
  by (simp_all add: genericCache_def toDouble_def bucketLoop.simps Let_def to_string.simps
      digit_def)

text \<open>
  Above \<open>2\<^sup>5\<^sup>3\<close> the comparison sees the rounded size: \<open>2\<^sup>5\<^sup>3 + 1\<close> is given the
  bucket \<open>2\<^sup>5\<^sup>3\<close>, which is smaller than the size; and for the largest sizes the bucket
  \<open>2\<^sup>6\<^sup>4\<close> does not fit the 64-bit integer it is converted to.
\<close>

lemma genericCache_rounded_size:
  "toDouble (2 ^ 53 + 1) = 2 ^ 53"
  "genericCache (2 ^ 53 + 1) = Inr ''kmalloc-9007199254740992''"
  by (simp_all add: genericCache_def toDouble_def bitLength.simps bucketLoop.simps Let_def
      to_string.simps digit_def)

lemma genericCache_undefined_conversion:
  "genericCache (2 ^ 64 - 1) = Inl UndefinedConversion"
  by (simp add: genericCache_def toDouble_def bitLength.simps bucketLoop.simps Let_def)





subsection \<open>The allocation classifier: the producer of the first operand\<close>

lemma specific_not_generic: "f \<in> specific_alloc \<Longrightarrow> f \<notin> generic_alloc"
  by (auto simp: generic_alloc_def specific_alloc_def)

lemma advance_found:
  "a \<notin> fst ` set pre \<Longrightarrow> advance (pre @ (a, k) # post) a n = Some (n + length pre)"
  by (induction pre arbitrary: n) auto

lemma siteLoop_dedicated:
  "getCalledFunction CI = Some f \<Longrightarrow> fnName f \<in> specific_alloc \<Longrightarrow>
   siteLoop (CI # rest) found =
     (case traceSite CI f of
        Crash a \<Rightarrow> Inl a
      | Return name \<Rightarrow> Inr (Inl name)
      | Continue \<Rightarrow> siteLoop rest found)"
  by (simp add: specific_not_generic)

lemma traceSite_hoistedCall:
  "traceSite hoistedCall (Function ''kmem_cache_alloc'' kmem_cache_ptr) = Return ''my_cache''"
  by (simp add: traceSite_def hoistedCall_def getProducerOfArgument0_def cacheLoad_def
      createStore_def kmem_cache_ptr_def)

text \<open>
  C7, as the claim states it, fails: the call below is the first instruction of its
  block, yet \<^verbatim>\<open>getProducerOfArgument0\<close> yields the load that produces its first operand,
  the site is not skipped, and the name is recovered.
\<close>

theorem getProducerOfArgument0_first_in_block_counterexample:
  "parentBlock hoistedCall = [(address hoistedCall, OtherInst)]
   \<and> getProducerOfArgument0 hoistedCall = Inr (Some cacheLoad)
   \<and> getAllocCache (typeWith [hoistedCall]) = Inr ''my_cache''"
proof -
  let ?f = "Function ''kmem_cache_alloc'' kmem_cache_ptr"
  have cf: "getCalledFunction hoistedCall = Some ?f" "fnName ?f \<in> specific_alloc"
    by (simp_all add: hoistedCall_def specific_alloc_def)
  have "siteLoop [hoistedCall] False = Inr (Inl ''my_cache'')"
    unfolding siteLoop_dedicated [OF cf] traceSite_hoistedCall by simp
  then have "getAllocCache (typeWith [hoistedCall]) = Inr ''my_cache''"
    by (simp add: getAllocCache_def typeWith_def)
  then show ?thesis
    by (simp add: hoistedCall_def getProducerOfArgument0_def)
qed

text \<open>
  C7, amended. The trace inspects the instruction that produces the call's first operand
  when that operand is an instruction, wherever it stands. Otherwise it inspects the
  instruction immediately before the call in its block; and when the first operand is not
  an instruction and the call opens its block, \<^verbatim>\<open>getProducerOfArgument0\<close> yields no
  instruction, the trace ends without a name, and the loop goes on with the next site.
\<close>

theorem getProducerOfArgument0_producer_else_previous:
  "(operand0Inst CI = Some producer \<longrightarrow> getProducerOfArgument0 CI = Inr (Some producer))
   \<and> (operand0Inst CI = None \<and> parentBlock CI = pre @ [previous, (address CI, k)] @ post
        \<and> address CI \<notin> fst ` set (pre @ [previous])
      \<longrightarrow> getProducerOfArgument0 CI = Inr (Some previous))
   \<and> (operand0Inst CI = None \<and> parentBlock CI = (address CI, k) # post
      \<longrightarrow> getProducerOfArgument0 CI = Inr None
          \<and> traceSite CI allocFunction = Continue
          \<and> (getCalledFunction CI = Some allocFunction \<and> fnName allocFunction \<in> specific_alloc
             \<longrightarrow> siteLoop (CI # rest) found = siteLoop rest found))"
proof (intro conjI impI)
  assume "operand0Inst CI = Some producer"
  then show "getProducerOfArgument0 CI = Inr (Some producer)"
    by (simp add: getProducerOfArgument0_def)
next
  assume h: "operand0Inst CI = None \<and> parentBlock CI = pre @ [previous, (address CI, k)] @ post
        \<and> address CI \<notin> fst ` set (pre @ [previous])"
  then have "advance (parentBlock CI) (address CI) 0 = Some (Suc (length pre))"
    using advance_found [of "address CI" "pre @ [previous]" k post 0] by simp
  moreover from h have "parentBlock CI ! length pre = previous"
    by simp
  ultimately show "getProducerOfArgument0 CI = Inr (Some previous)"
    using h by (simp add: getProducerOfArgument0_def)
next
  assume h: "operand0Inst CI = None \<and> parentBlock CI = (address CI, k) # post"
  then show none: "getProducerOfArgument0 CI = Inr None"
    by (simp add: getProducerOfArgument0_def)
  then show cont: "traceSite CI allocFunction = Continue"
    by (simp add: traceSite_def)
  assume "getCalledFunction CI = Some allocFunction \<and> fnName allocFunction \<in> specific_alloc"
  then have cf: "getCalledFunction CI = Some allocFunction" "fnName allocFunction \<in> specific_alloc"
    by simp_all
  show "siteLoop (CI # rest) found = siteLoop rest found"
    unfolding siteLoop_dedicated [OF cf] cont by simp
qed

theorem getProducerOfArgument0_producer_else_previous_witness:
  "getProducerOfArgument0 hoistedCall = Inr (Some cacheLoad)
   \<and> getProducerOfArgument0 followingCall = Inr (Some cacheLoad)
   \<and> getProducerOfArgument0 leadingCall = Inr None
   \<and> siteLoop [leadingCall, kmallocCall] False = siteLoop [kmallocCall] False"
proof -
  let ?f = "Function ''kmem_cache_alloc'' kmem_cache_ptr"
  have a: "operand0Inst hoistedCall = Some cacheLoad"
    by (simp add: hoistedCall_def)
  have b: "operand0Inst followingCall = None
           \<and> parentBlock followingCall = [] @ [cacheLoad, (address followingCall, OtherInst)] @ []
           \<and> address followingCall \<notin> fst ` set ([] @ [cacheLoad])"
    by (simp add: followingCall_def cacheLoad_def)
  have c: "operand0Inst leadingCall = None
           \<and> parentBlock leadingCall = (address leadingCall, OtherInst) # []"
    by (simp add: leadingCall_def followingCall_def)
  have d: "getCalledFunction leadingCall = Some ?f \<and> fnName ?f \<in> specific_alloc"
    by (simp add: leadingCall_def followingCall_def specific_alloc_def)
  from a b c d show ?thesis
    using getProducerOfArgument0_producer_else_previous
        [of hoistedCall cacheLoad "[]" cacheLoad OtherInst "[]"]
      getProducerOfArgument0_producer_else_previous
        [of followingCall cacheLoad "[]" cacheLoad OtherInst "[]"]
      getProducerOfArgument0_producer_else_previous
        [of leadingCall cacheLoad "[]" cacheLoad OtherInst "[]" ?f "[kmallocCall]" False]
    by blast
qed


subsection \<open>The allocation classifier: which name is returned\<close>

lemma siteLoop_step:
  "siteLoop (CI # rest) found =
     (case siteOutcome CI of
        Crash a \<Rightarrow> Inl a
      | Return name \<Rightarrow> Inr (Inl name)
      | Continue \<Rightarrow> siteLoop rest (found \<or> targetsGeneric CI))"
  by (auto simp: siteOutcome_def targetsGeneric_def Let_def split: option.splits step.splits)

lemma siteLoop_all_continue:
  "list_all (\<lambda>s. siteOutcome s = Continue) pre \<Longrightarrow>
   siteLoop (pre @ rest) found = siteLoop rest (found \<or> list_ex targetsGeneric pre)"
proof (induction pre arbitrary: found)
  case Nil
  then show ?case by simp
next
  case (Cons CI pre)
  then have c: "siteOutcome CI = Continue" and p: "list_all (\<lambda>s. siteOutcome s = Continue) pre"
    by simp_all
  have "siteLoop ((CI # pre) @ rest) found = siteLoop (pre @ rest) (found \<or> targetsGeneric CI)"
    unfolding append_Cons siteLoop_step c by simp
  also have "\<dots> = siteLoop rest ((found \<or> targetsGeneric CI) \<or> list_ex targetsGeneric pre)"
    by (rule Cons.IH [OF p])
  finally show ?case by simp
qed

lemma siteOutcome_neither:
  "getCalledFunction s = Some f \<Longrightarrow> fnName f \<notin> generic_alloc \<Longrightarrow> fnName f \<notin> specific_alloc \<Longrightarrow>
   siteOutcome s = Continue \<and> \<not> targetsGeneric s"
  by (simp add: siteOutcome_def targetsGeneric_def)

text \<open>
  The failures of the trace that the code does pass over: no producing or preceding
  instruction, no global behind the load, a descriptor type that is not a pointer to
  \<^verbatim>\<open>struct.kmem_cache\<close>, and users none of which yields a name.
\<close>

lemma scanUsers_passedOver: "list_all passedOver us \<Longrightarrow> scanUsers us = Continue"
proof (induction us rule: scanUsers.induct)
  case (2 callee arg0 rest)
  then show ?case
    by (cases callee)
      (auto split: NameArgument.splits Constant.splits option.splits Initializer.splits
        if_splits)
qed simp_all

lemma traceSite_passes_over:
  "getProducerOfArgument0 CI = Inr None \<Longrightarrow> traceSite CI f = Continue"
  "getProducerOfArgument0 CI = Inr (Some previous) \<Longrightarrow> loadedGlobal previous = None \<Longrightarrow>
     traceSite CI f = Continue"
  "getProducerOfArgument0 CI = Inr (Some previous) \<Longrightarrow>
     getStructType (Some (arg0Type f)) = None \<or> \<not> isPointerTy (arg0Type f)
       \<or> (\<exists>st. getStructType (Some (arg0Type f)) = Some st \<and> getName st \<noteq> ''struct.kmem_cache'') \<Longrightarrow>
     traceSite CI f = Continue"
  "getProducerOfArgument0 CI = Inr (Some previous) \<Longrightarrow> loadedGlobal previous = Some us \<Longrightarrow>
     list_all passedOver us \<Longrightarrow> traceSite CI f = Continue"
  by (auto simp: traceSite_def scanUsers_passedOver split: option.splits)

text \<open>
  What the scan of the users returns. It passes over the users that yield nothing; at the
  first other user it returns the text of the constant that a creation call names, or it
  stops at a store of an indirect call's result.
\<close>

lemma scanUsers_append:
  "list_all passedOver pre \<Longrightarrow> scanUsers (pre @ rest) = scanUsers rest"
proof (induction pre rule: scanUsers.induct)
  case (2 callee arg0 rest')
  then show ?case
    by (cases callee)
      (auto split: NameArgument.splits Constant.splits option.splits Initializer.splits
        if_splits)
qed simp_all

lemma scanUsers_first_name:
  assumes "list_all passedOver pre" and "contains ''kmem_cache_create'' name"
  shows "scanUsers (pre @ StoreInst (StoredCall (Some name)
            (ConstantExpr True (ConstantGlobal True (Some (ConstantDataSequential (Some StrValue))))))
          # post) = Return StrValue"
  using assms by (simp add: scanUsers_append)

lemma scanUsers_indirect_store:
  "list_all passedOver pre \<Longrightarrow>
   scanUsers (pre @ StoreInst (StoredCall None arg0) # post) = Crash NullDereference"
  by (simp add: scanUsers_append)

lemma scanUsers_Return_iff:
  "scanUsers us = Return StrValue \<longleftrightarrow>
     (\<exists>pre name post. list_all passedOver pre \<and> contains ''kmem_cache_create'' name
        \<and> us = pre @ StoreInst (StoredCall (Some name)
            (ConstantExpr True (ConstantGlobal True (Some (ConstantDataSequential (Some StrValue))))))
          # post)"
proof
  assume "scanUsers us = Return StrValue"
  then show "\<exists>pre name post. list_all passedOver pre \<and> contains ''kmem_cache_create'' name
        \<and> us = pre @ StoreInst (StoredCall (Some name)
            (ConstantExpr True (ConstantGlobal True (Some (ConstantDataSequential (Some StrValue))))))
          # post"
  proof (induction us)
    case Nil
    then show ?case by simp
  next
    case (Cons u us)
    show ?case
    proof (cases "passedOver u")
      case True
      then have "scanUsers (u # us) = scanUsers us"
        using scanUsers_append [of "[u]" us] by simp
      with Cons obtain pre name post where
        "list_all passedOver pre" "contains ''kmem_cache_create'' name"
        "us = pre @ StoreInst (StoredCall (Some name)
            (ConstantExpr True (ConstantGlobal True (Some (ConstantDataSequential (Some StrValue))))))
          # post"
        by auto
      with True show ?thesis
        by (intro exI [of _ "u # pre"] exI [of _ name] exI [of _ post]) simp
    next
      case False
      with Cons.prems obtain name where
        "u = StoreInst (StoredCall (Some name)
            (ConstantExpr True (ConstantGlobal True (Some (ConstantDataSequential (Some StrValue))))))"
        "contains ''kmem_cache_create'' name"
        by (cases u rule: passedOver.cases)
          (auto split: NameArgument.splits Constant.splits option.splits Initializer.splits
            if_splits)
      then show ?thesis
        by (intro exI [of _ "[]"] exI [of _ name] exI [of _ us]) simp
    qed
  qed
next
  assume "\<exists>pre name post. list_all passedOver pre \<and> contains ''kmem_cache_create'' name
        \<and> us = pre @ StoreInst (StoredCall (Some name)
            (ConstantExpr True (ConstantGlobal True (Some (ConstantDataSequential (Some StrValue))))))
          # post"
  then show "scanUsers us = Return StrValue"
    using scanUsers_first_name by auto
qed

text \<open>
  The order in which \<^verbatim>\<open>getAllocCache\<close> chooses the name, on the runs that visit no site
  at which the process stops: the name recovered at the first site whose trace recovers
  one; else, for a size below \<open>2\<^sup>5\<^sup>3\<close>, the generic bucket name when some site calls a
  generic allocator; and the empty string when every site calls a function of neither
  allocator class.
\<close>

lemma getAllocCache_name_order:
  "(allocSite this = pre @ CI # post \<and> list_all (\<lambda>s. siteOutcome s = Continue) pre
      \<and> siteOutcome CI = Return name
    \<longrightarrow> getAllocCache this = Inr name)
   \<and> (list_all (\<lambda>s. siteOutcome s = Continue) (allocSite this)
        \<and> list_ex targetsGeneric (allocSite this) \<and> unat (allocSize this) < 2 ^ 53
      \<longrightarrow> getAllocCache this = Inr (bucketName (bucketLoop 3 (unat (allocSize this)))))
   \<and> (list_all (\<lambda>s. \<exists>f. getCalledFunction s = Some f \<and> fnName f \<notin> generic_alloc
                          \<and> fnName f \<notin> specific_alloc) (allocSite this)
      \<longrightarrow> getAllocCache this = Inr '''')"
proof (intro conjI impI)
  assume h: "allocSite this = pre @ CI # post \<and> list_all (\<lambda>s. siteOutcome s = Continue) pre
      \<and> siteOutcome CI = Return name"
  then have "siteLoop (allocSite this) False
               = siteLoop (CI # post) (False \<or> list_ex targetsGeneric pre)"
    by (simp add: siteLoop_all_continue del: siteLoop.simps)
  also have "\<dots> = Inr (Inl name)"
    unfolding siteLoop_step using h by simp
  finally show "getAllocCache this = Inr name"
    by (simp add: getAllocCache_def)
next
  assume h: "list_all (\<lambda>s. siteOutcome s = Continue) (allocSite this)
        \<and> list_ex targetsGeneric (allocSite this) \<and> unat (allocSize this) < 2 ^ 53"
  then have "siteLoop (allocSite this @ []) False = Inr (Inr True)"
    by (simp add: siteLoop_all_continue del: append_Nil2)
  then have "getAllocCache this = genericCache (allocSize this)"
    by (simp add: getAllocCache_def)
  with h show "getAllocCache this = Inr (bucketName (bucketLoop 3 (unat (allocSize this))))"
    by (simp add: genericCache_bucket)
next
  assume h: "list_all (\<lambda>s. \<exists>f. getCalledFunction s = Some f \<and> fnName f \<notin> generic_alloc
                          \<and> fnName f \<notin> specific_alloc) (allocSite this)"
  then have c: "list_all (\<lambda>s. siteOutcome s = Continue) (allocSite this)"
    and n: "\<not> list_ex targetsGeneric (allocSite this)"
    using siteOutcome_neither by (auto simp: list_all_iff list_ex_iff)
  from c have "siteLoop (allocSite this @ []) False
                 = Inr (Inr (False \<or> list_ex targetsGeneric (allocSite this)))"
    by (simp add: siteLoop_all_continue del: append_Nil2)
  with n show "getAllocCache this = Inr ''''"
    by (simp add: getAllocCache_def)
qed

text \<open>
  When a site recovers a name: its callee is a dedicated-cache allocator whose first
  formal argument is a pointer that unwraps to \<^verbatim>\<open>struct.kmem_cache\<close>, the instruction found
  for its first operand loads from a global, and the scan of that global's users returns
  the name.
\<close>

lemma siteOutcome_Return_iff:
  "siteOutcome CI = Return name \<longleftrightarrow>
     (\<exists>f previous st us. getCalledFunction CI = Some f \<and> fnName f \<in> specific_alloc
        \<and> getProducerOfArgument0 CI = Inr (Some previous)
        \<and> getStructType (Some (arg0Type f)) = Some st \<and> isPointerTy (arg0Type f)
        \<and> getName st = ''struct.kmem_cache''
        \<and> loadedGlobal previous = Some us \<and> scanUsers us = Return name)"
  by (auto simp: siteOutcome_def traceSite_def split: option.splits sum.splits if_splits)

lemma siteOutcome_samples:
  "siteOutcome leadingCall = Continue"
  "siteOutcome hoistedCall = Return ''my_cache''"
  "siteOutcome kmallocCall = Continue"
  "targetsGeneric kmallocCall"
  "\<not> targetsGeneric leadingCall"
  "siteOutcome indirectStoreCall = Crash NullDereference"
  by (simp_all add: siteOutcome_def targetsGeneric_def leadingCall_def followingCall_def
      hoistedCall_def kmallocCall_def indirectStoreCall_def traceSite_def
      getProducerOfArgument0_def cacheLoad_def createStore_def kmem_cache_ptr_def
      generic_alloc_def specific_alloc_def)

lemma getAllocCache_name_order_examples:
  "getAllocCache (typeWith [leadingCall, kmallocCall, hoistedCall]) = Inr ''my_cache''
   \<and> getAllocCache (typeWith [leadingCall, kmallocCall]) = Inr ''kmalloc-1k''
   \<and> getAllocCache (typeWith [otherCall]) = Inr ''''"
proof -
  have a: "allocSite (typeWith [leadingCall, kmallocCall, hoistedCall])
             = [leadingCall, kmallocCall] @ hoistedCall # []
           \<and> list_all (\<lambda>s. siteOutcome s = Continue) [leadingCall, kmallocCall]
           \<and> siteOutcome hoistedCall = Return ''my_cache''"
    by (simp add: typeWith_def siteOutcome_samples)
  have b: "list_all (\<lambda>s. siteOutcome s = Continue) (allocSite (typeWith [leadingCall, kmallocCall]))
           \<and> list_ex targetsGeneric (allocSite (typeWith [leadingCall, kmallocCall]))
           \<and> unat (allocSize (typeWith [leadingCall, kmallocCall])) < 2 ^ 53"
    by (simp add: typeWith_def siteOutcome_samples)
  have c: "list_all (\<lambda>s. \<exists>f. getCalledFunction s = Some f \<and> fnName f \<notin> generic_alloc
                          \<and> fnName f \<notin> specific_alloc) (allocSite (typeWith [otherCall]))"
    by (simp add: typeWith_def otherCall_def generic_alloc_def specific_alloc_def)
  have d: "Inr (bucketName (bucketLoop 3 (unat (allocSize (typeWith [leadingCall, kmallocCall])))))
             = (Inr ''kmalloc-1k'' :: abort + string)"
    using genericCache_bucket [of "500 :: 64 word"]
    by (simp add: typeWith_def genericCache_examples)
  from a b c d show ?thesis
    using getAllocCache_name_order
        [of "typeWith [leadingCall, kmallocCall, hoistedCall]" "[leadingCall, kmallocCall]"
          hoistedCall "[]" "''my_cache''"]
      getAllocCache_name_order
        [of "typeWith [leadingCall, kmallocCall]" "[]" leadingCall "[]" "[]"]
      getAllocCache_name_order
        [of "typeWith [otherCall]" "[]" leadingCall "[]" "[]"]
    by simp
qed

text \<open>
  C5. The claim does not hold of the code. The cache global of the first site below is
  written by a store of the result of an indirect call, so no creation call matches; the
  code asks the null callee for its name, and the process stops instead of falling back
  to the generic name of the second site.
\<close>

theorem getAllocCache_indirect_store_stops:
  "scanUsers [StoreInst (StoredCall None OtherArgument)] = Crash NullDereference
   \<and> siteOutcome kmallocCall = Continue \<and> targetsGeneric kmallocCall
   \<and> getAllocCache (typeWith [indirectStoreCall, kmallocCall]) = Inl NullDereference"
proof -
  have "siteOutcome indirectStoreCall = Crash NullDereference"
    by (simp add: siteOutcome_def indirectStoreCall_def specific_alloc_def traceSite_def
        getProducerOfArgument0_def kmem_cache_ptr_def)
  then have "siteLoop [indirectStoreCall, kmallocCall] False = Inl NullDereference"
    unfolding siteLoop_step by simp
  then show ?thesis
    by (simp add: getAllocCache_def typeWith_def siteOutcome_samples)
qed

text \<open>
  C6. The claim does not hold of the code, by the defect of C5. Of the two sites below the
  first calls \<^verbatim>\<open>kmalloc\<close> and the second recovers no dedicated name, so the claim promises
  the generic bucket name, which for the size 500 is \<^verbatim>\<open>kmalloc-1k\<close>. At the second site
  the cache global is written by a store of the result of an indirect call; the code asks
  the null callee for its name, and the process stops without returning any name.
\<close>

theorem getAllocCache_generic_fallback_stops:
  "targetsGeneric kmallocCall
   \<and> siteOutcome kmallocCall = Continue
   \<and> siteOutcome indirectStoreCall = Crash NullDereference
   \<and> allocSize (typeWith [kmallocCall, indirectStoreCall]) = 500
   \<and> genericCache 500 = Inr ''kmalloc-1k''
   \<and> getAllocCache (typeWith [kmallocCall, indirectStoreCall]) = Inl NullDereference"
proof -
  have "siteLoop [kmallocCall, indirectStoreCall] False = Inl NullDereference"
    unfolding siteLoop_step by (simp add: siteOutcome_samples)
  then show ?thesis
    by (simp add: getAllocCache_def typeWith_def siteOutcome_samples genericCache_examples)
qed


subsection \<open>The embedding resolver\<close>

lemma pushRebased_eq:
  "pushRebased base offs acc = acc @ map (\<lambda>i. i + base) (filter (\<lambda>i. i \<noteq> 0) offs)"
  by (induction offs arbitrary: acc) auto

lemma extends_refl: "extends a a"
  by (simp add: extends_def)

lemma extends_trans: "extends a b \<Longrightarrow> extends b c \<Longrightarrow> extends a c"
  unfolding extends_def by (meson prefix_order.trans)

lemma plain_step_vectors:
  fixes stInfo :: StructInfo
  defines "next \<equiv> \<lambda>off n a p u sz.
     addRealSize (addField (addOffsetMap (addFieldOffset stInfo off) (of_nat n)) 1 a p u) sz"
  shows "arrayFlags (next off n a p u sz) = arrayFlags stInfo @ [a]"
    and "pointerFlags (next off n a p u sz) = pointerFlags stInfo @ [p]"
    and "unionFlags (next off n a p u sz) = unionFlags stInfo @ [u]"
    and "fieldRealSize (next off n a p u sz) = fieldRealSize stInfo @ [sz]"
    and "fieldOffset (next off n a p u sz) = fieldOffset stInfo @ [off]"
    and "offsetMap (next off n a p u sz) = offsetMap stInfo @ [of_nat n]"
    and "fieldSize (next off n a p u sz) = fieldSize stInfo @ [1]"
  by (simp_all add: next_def addRealSize_def addField_def addOffsetMap_def addFieldOffset_def)

lemma embed_step_vectors:
  assumes "appendFields (addOffsetMap (addFieldOffset stInfo off) (of_nat n)) subInfo = Inr spliced"
    and "appendFieldOffset (setEmbeddingSize spliced n count) subInfo = Inr rebased"
  shows "arrayFlags rebased = arrayFlags stInfo @ arrayFlags subInfo"
    and "pointerFlags rebased = pointerFlags stInfo @ pointerFlags subInfo"
    and "unionFlags rebased = unionFlags stInfo @ unionFlags subInfo"
    and "fieldRealSize rebased = fieldRealSize stInfo @ fieldRealSize subInfo"
    and "fieldOffset rebased =
           fieldOffset stInfo @ off # map (\<lambda>i. i + off) (filter (\<lambda>i. i \<noteq> 0) (fieldOffset subInfo))"
    and "offsetMap rebased = offsetMap stInfo @ [of_nat n]"
    and "\<exists>tl. fieldSize rebased = (fieldSize stInfo @ tl)[n := of_nat count]
              \<or> fieldSize rebased = fieldSize stInfo @ tl"
proof -
  from assms(1) obtain e where e: "isEmpty subInfo = Inr e"
    by (auto simp: appendFields_def split: sum.splits)
  let ?s = "addOffsetMap (addFieldOffset stInfo off) (of_nat n)"
  have sp: "spliced = ?s\<lparr>fieldSize := (if \<not> e then fieldSize ?s @ fieldSize subInfo else fieldSize ?s),
               arrayFlags := arrayFlags ?s @ arrayFlags subInfo,
               pointerFlags := pointerFlags ?s @ pointerFlags subInfo,
               unionFlags := unionFlags ?s @ unionFlags subInfo,
               fieldRealSize := fieldRealSize ?s @ fieldRealSize subInfo\<rparr>"
    using assms(1) e by (simp add: appendFields_def)
  have sv: "arrayFlags spliced = arrayFlags stInfo @ arrayFlags subInfo"
    "pointerFlags spliced = pointerFlags stInfo @ pointerFlags subInfo"
    "unionFlags spliced = unionFlags stInfo @ unionFlags subInfo"
    "fieldRealSize spliced = fieldRealSize stInfo @ fieldRealSize subInfo"
    "fieldOffset spliced = fieldOffset stInfo @ [off]"
    "offsetMap spliced = offsetMap stInfo @ [of_nat n]"
    "\<exists>tl. fieldSize spliced = fieldSize stInfo @ tl"
    by (simp_all add: sp addOffsetMap_def addFieldOffset_def)
  let ?t = "setEmbeddingSize spliced n count"
  have t: "arrayFlags ?t = arrayFlags spliced" "pointerFlags ?t = pointerFlags spliced"
    "unionFlags ?t = unionFlags spliced" "fieldRealSize ?t = fieldRealSize spliced"
    "fieldOffset ?t = fieldOffset spliced" "offsetMap ?t = offsetMap spliced"
    by (simp_all add: setEmbeddingSize_def)
  have ne: "fieldOffset ?t \<noteq> []" and la: "last (fieldOffset ?t) = off"
    unfolding t sv by simp_all
  have rb: "rebased = ?t\<lparr>fieldOffset :=
                  pushRebased (last (fieldOffset ?t)) (fieldOffset subInfo) (fieldOffset ?t)\<rparr>"
    using assms(2) ne by (simp add: appendFieldOffset_def)
  have r: "arrayFlags rebased = arrayFlags ?t" "pointerFlags rebased = pointerFlags ?t"
    "unionFlags rebased = unionFlags ?t" "fieldRealSize rebased = fieldRealSize ?t"
    "offsetMap rebased = offsetMap ?t" "fieldSize rebased = fieldSize ?t"
    "fieldOffset rebased = pushRebased off (fieldOffset subInfo) (fieldOffset ?t)"
    by (subst rb, simp add: la)+
  show "arrayFlags rebased = arrayFlags stInfo @ arrayFlags subInfo"
    unfolding r t sv ..
  show "pointerFlags rebased = pointerFlags stInfo @ pointerFlags subInfo"
    unfolding r t sv ..
  show "unionFlags rebased = unionFlags stInfo @ unionFlags subInfo"
    unfolding r t sv ..
  show "fieldRealSize rebased = fieldRealSize stInfo @ fieldRealSize subInfo"
    unfolding r t sv ..
  show "offsetMap rebased = offsetMap stInfo @ [of_nat n]"
    unfolding r t sv ..
  show "fieldOffset rebased =
           fieldOffset stInfo @ off # map (\<lambda>i. i + off) (filter (\<lambda>i. i \<noteq> 0) (fieldOffset subInfo))"
    unfolding r t sv pushRebased_eq by simp
  from sv(7) show "\<exists>tl. fieldSize rebased = (fieldSize stInfo @ tl)[n := of_nat count]
              \<or> fieldSize rebased = fieldSize stInfo @ tl"
    unfolding r by (auto simp: setEmbeddingSize_def)
qed

lemma addFields_Embedded_Inr:
  assumes "addFields st (Embedded off sub # rest) stInfo n m = Inr r"
  obtains subInfo m1 spliced rebased where
    "computeStructInfo sub m = Inr (subInfo, m1)"
    "appendFields (addOffsetMap (addFieldOffset stInfo off) (of_nat n)) subInfo = Inr spliced"
    "appendFieldOffset (setEmbeddingSize spliced n (getExpandedSize subInfo)) subInfo = Inr rebased"
    "addFields st rest rebased (n + getExpandedSize subInfo)
       (registerContainer st (realType sub) subInfo off m1) = Inr r"
  using assms by (auto split: sum.splits prod.splits)

lemma addFields_extends:
  "addFields st fs stInfo n m = Inr (stInfo', m') \<Longrightarrow> extends stInfo stInfo'"
proof (induction fs arbitrary: stInfo n m)
  case Nil
  then show ?case by (simp add: extends_refl)
next
  case (Cons f fs)
  show ?case
  proof (cases f)
    case (Plain off a p u sz)
    let ?next = "addRealSize (addField (addOffsetMap (addFieldOffset stInfo off) (of_nat n)) 1 a p u) sz"
    from Cons.prems Plain have "addFields st fs ?next (n + 1) m = Inr (stInfo', m')"
      by simp
    then have "extends ?next stInfo'"
      by (rule Cons.IH)
    moreover have "extends stInfo ?next"
      by (simp add: extends_def plain_step_vectors)
    ultimately show ?thesis
      by (rule extends_trans [rotated])
  next
    case (Embedded off sub)
    from Cons.prems have "addFields st (Embedded off sub # fs) stInfo n m = Inr (stInfo', m')"
      unfolding Embedded .
    then obtain subInfo m1 spliced rebased where
      c: "computeStructInfo sub m = Inr (subInfo, m1)"
      and s: "appendFields (addOffsetMap (addFieldOffset stInfo off) (of_nat n)) subInfo = Inr spliced"
        "appendFieldOffset (setEmbeddingSize spliced n (getExpandedSize subInfo)) subInfo = Inr rebased"
      and r: "addFields st fs rebased (n + getExpandedSize subInfo)
                (registerContainer st (realType sub) subInfo off m1) = Inr (stInfo', m')"
      by (rule addFields_Embedded_Inr)
    from r have "extends rebased stInfo'"
      by (rule Cons.IH)
    moreover have "extends stInfo rebased"
      by (simp add: extends_def embed_step_vectors [OF s])
    ultimately show ?thesis
      by (rule extends_trans [rotated])
  qed
qed

lemma keeps_refl: "keeps m m"
  by (simp add: keeps_def)

lemma keeps_trans: "keeps m1 m2 \<Longrightarrow> keeps m2 m3 \<Longrightarrow> keeps m1 m3"
  unfolding keeps_def by (meson subset_trans)

lemma computeStructInfo_entry:
  "computeStructInfo agg m = Inr (info, m') \<Longrightarrow> m' (realType agg) = Some info"
  by (cases agg) (auto split: option.splits sum.splits prod.splits)

lemma keeps_registerContainer:
  "m1 t = Some subInfo \<Longrightarrow> keeps m1 (registerContainer st t subInfo off m1)"
  by (auto simp: keeps_def registerContainer_def addContainer_def)

lemma keeps_publish: "m st = None \<Longrightarrow> keeps m m' \<Longrightarrow> keeps m (m'(st \<mapsto> info))"
  by (auto simp: keeps_def)

lemma resolver_keeps:
  shows "computeStructInfo agg m = Inr (info, m') \<Longrightarrow> keeps m m'"
    and "m2 (realType agg2) = None \<Longrightarrow> addStructInfo agg2 m2 = Inr (info2, m2') \<Longrightarrow> keeps m2 m2'"
    and "addFields st fs stInfo n m3 = Inr (info3, m3') \<Longrightarrow> keeps m3 m3'"
proof (induction agg m and agg2 m2 and st fs stInfo n m3
    arbitrary: info m' and info2 m2' and info3 m3'
    rule: computeStructInfo_addStructInfo_addFields.induct)
  case (1 st fs m)
  show ?case
  proof (cases "m st")
    case None
    with 1 show ?thesis by simp
  next
    case (Some stInfo)
    with 1 show ?thesis by (simp add: keeps_refl)
  qed
next
  case (2 st fs m)
  from 2(3) obtain stInfo mF where
    f: "addFields st fs freshLayout 0 m = Inr (stInfo, mF)" and e: "m2' = mF(st \<mapsto> stInfo)"
    by (auto split: sum.splits prod.splits)
  from 2(1) [OF f] have k: "keeps m mF" .
  from 2(2) have n: "m st = None" by simp
  show ?case
    unfolding e by (rule keeps_publish [OF n k])
next
  case (3 st stInfo numField m)
  then show ?case by (simp add: keeps_refl)
next
  case (4 st off isArray isPointer isUnion sz rest stInfo numField m)
  then show ?case by simp
next
  case (5 st off sub rest stInfo numField m)
  from 5(3) obtain subInfo m1 spliced rebased where
    c: "computeStructInfo sub m = Inr (subInfo, m1)"
    and s: "appendFields (addOffsetMap (addFieldOffset stInfo off) (of_nat numField)) subInfo = Inr spliced"
      "appendFieldOffset (setEmbeddingSize spliced numField (getExpandedSize subInfo)) subInfo = Inr rebased"
    and r: "addFields st rest rebased (numField + getExpandedSize subInfo)
              (registerContainer st (realType sub) subInfo off m1) = Inr (info3, m3')"
    by (rule addFields_Embedded_Inr)
  have k1: "keeps m m1"
    by (rule 5(1) [OF c])
  have k2: "keeps m1 (registerContainer st (realType sub) subInfo off m1)"
    using computeStructInfo_entry [OF c] by (rule keeps_registerContainer)
  have k3: "keeps (registerContainer st (realType sub) subInfo off m1) m3'"
    by (rule 5(2) [OF c refl s(1) s(2) r])
  from k1 k2 k3 show ?case
    by (blast intro: keeps_trans)
qed

lemma addFields_fieldSize_take:
  "addFields st fs stInfo n m = Inr (stInfo', m') \<Longrightarrow> i \<le> n \<Longrightarrow> i \<le> length (fieldSize stInfo) \<Longrightarrow>
   take i (fieldSize stInfo') = take i (fieldSize stInfo)"
proof (induction fs arbitrary: stInfo n m)
  case Nil
  then show ?case by simp
next
  case (Cons f fs)
  show ?case
  proof (cases f)
    case (Plain off a p u sz)
    let ?next = "addRealSize (addField (addOffsetMap (addFieldOffset stInfo off) (of_nat n)) 1 a p u) sz"
    from Cons.prems(1) Plain have "addFields st fs ?next (n + 1) m = Inr (stInfo', m')"
      by simp
    moreover have fs: "fieldSize ?next = fieldSize stInfo @ [1]"
      by (rule plain_step_vectors)
    ultimately have "take i (fieldSize stInfo') = take i (fieldSize stInfo @ [1])"
      using Cons.IH [of ?next "n + 1" m] Cons.prems(2,3) by simp
    with Cons.prems(3) show ?thesis by simp
  next
    case (Embedded off sub)
    from Cons.prems(1) have "addFields st (Embedded off sub # fs) stInfo n m = Inr (stInfo', m')"
      unfolding Embedded .
    then obtain subInfo m1 spliced rebased where
      c: "computeStructInfo sub m = Inr (subInfo, m1)"
      and s: "appendFields (addOffsetMap (addFieldOffset stInfo off) (of_nat n)) subInfo = Inr spliced"
        "appendFieldOffset (setEmbeddingSize spliced n (getExpandedSize subInfo)) subInfo = Inr rebased"
      and r: "addFields st fs rebased (n + getExpandedSize subInfo)
                (registerContainer st (realType sub) subInfo off m1) = Inr (stInfo', m')"
      by (rule addFields_Embedded_Inr)
    from embed_step_vectors(7) [OF s] obtain tl where
      tl: "fieldSize rebased = (fieldSize stInfo @ tl)[n := of_nat (getExpandedSize subInfo)]
           \<or> fieldSize rebased = fieldSize stInfo @ tl"
      by blast
    with Cons.prems(2,3) have t: "take i (fieldSize rebased) = take i (fieldSize stInfo)"
      and l: "i \<le> length (fieldSize rebased)"
      by auto
    from Cons.IH [OF r _ l] Cons.prems(2) t show ?thesis by simp
  qed
qed

lemma addFields_plain_prefix:
  "list_all isPlain pre \<Longrightarrow>
   \<exists>mid. addFields st (pre @ fs) stInfo n m = addFields st fs mid (n + length pre) m
     \<and> arrayFlags mid = arrayFlags stInfo @ map isArrayField pre
     \<and> pointerFlags mid = pointerFlags stInfo @ map isPointerField pre
     \<and> unionFlags mid = unionFlags stInfo @ map isUnionField pre
     \<and> fieldRealSize mid = fieldRealSize stInfo @ map realSize pre
     \<and> fieldOffset mid = fieldOffset stInfo @ map byteOffset pre
     \<and> offsetMap mid = offsetMap stInfo @ map of_nat [n ..< n + length pre]
     \<and> fieldSize mid = fieldSize stInfo @ replicate (length pre) 1"
proof (induction pre arbitrary: stInfo n)
  case Nil
  show ?case by (rule exI [of _ stInfo]) simp
next
  case (Cons f pre)
  then obtain off a p u sz where f: "f = Plain off a p u sz"
    by (cases f) auto
  let ?next = "addRealSize (addField (addOffsetMap (addFieldOffset stInfo off) (of_nat n)) 1 a p u) sz"
  from Cons.prems have "list_all isPlain pre" by simp
  from Cons.IH [OF this, of ?next "Suc n"] obtain mid where
    mid: "addFields st (pre @ fs) ?next (Suc n) m = addFields st fs mid (Suc n + length pre) m"
      "arrayFlags mid = arrayFlags ?next @ map isArrayField pre"
      "pointerFlags mid = pointerFlags ?next @ map isPointerField pre"
      "unionFlags mid = unionFlags ?next @ map isUnionField pre"
      "fieldRealSize mid = fieldRealSize ?next @ map realSize pre"
      "fieldOffset mid = fieldOffset ?next @ map byteOffset pre"
      "offsetMap mid = offsetMap ?next @ map of_nat [Suc n ..< Suc n + length pre]"
      "fieldSize mid = fieldSize ?next @ replicate (length pre) 1"
    by blast
  have "n < n + length (f # pre)"
    by simp
  from upt_conv_Cons [OF this]
  have u: "[n ..< n + length (f # pre)] = n # [Suc n ..< Suc n + length pre]"
    by simp
  show ?case
  proof (rule exI [of _ mid], intro conjI)
    show "addFields st ((f # pre) @ fs) stInfo n m = addFields st fs mid (n + length (f # pre)) m"
      using mid(1) by (simp add: f)
    show "arrayFlags mid = arrayFlags stInfo @ map isArrayField (f # pre)"
      unfolding mid(2) plain_step_vectors by (simp add: f)
    show "pointerFlags mid = pointerFlags stInfo @ map isPointerField (f # pre)"
      unfolding mid(3) plain_step_vectors by (simp add: f)
    show "unionFlags mid = unionFlags stInfo @ map isUnionField (f # pre)"
      unfolding mid(4) plain_step_vectors by (simp add: f)
    show "fieldRealSize mid = fieldRealSize stInfo @ map realSize (f # pre)"
      unfolding mid(5) plain_step_vectors by (simp add: f)
    show "fieldOffset mid = fieldOffset stInfo @ map byteOffset (f # pre)"
      unfolding mid(6) plain_step_vectors by (simp add: f)
    show "offsetMap mid = offsetMap stInfo @ map of_nat [n ..< n + length (f # pre)]"
      unfolding mid(7) plain_step_vectors u by simp
    show "fieldSize mid = fieldSize stInfo @ replicate (length (f # pre)) 1"
      unfolding mid(8) plain_step_vectors by (simp add: replicate_append_same)
  qed
qed

lemma prefix_splice:
  assumes "prefix (xs @ ys) zs"
  shows "take (length xs) zs = xs" and "take (length ys) (drop (length xs) zs) = ys"
  using assms by (auto simp: prefix_def)

text \<open>
  What the resolver does establish for the first embedded field. Let declared field \<open>i\<close>
  of \<open>A\<close> embed \<open>B\<close> at byte offset \<open>off\<close>, the declared fields before it being single
  expanded fields, and \<open>B\<close> a type other than \<open>A\<close>. When the flattening of \<open>A\<close> ends
  normally, the expanded fields \<open>[0, i)\<close> of \<open>A\<close> are its first \<open>i\<close> declared fields, with
  size 1; the flag and real-size vectors of \<open>B\<close>'s layout stand at the expanded positions
  from \<open>i\<close> on; the byte offsets from position \<open>i\<close> on are \<open>off\<close> followed by the
  nonzero relative offsets of \<open>B\<close> plus \<open>off\<close>; \<open>offsetMap[i] = i\<close>; and \<open>B\<close>'s cached
  layout holds \<open>(A, off)\<close> in its container set.
\<close>

lemma addStructInfo_embedding:
  assumes flat: "addStructInfo (Aggregate stA (pre @ Embedded off B # rest)) m = Inr (aInfo, m')"
    and plain: "list_all isPlain pre"
    and other: "realType B \<noteq> stA"
    and sub: "computeStructInfo B m = Inr (bInfo, m1)"
  shows "take (length pre) (arrayFlags aInfo) = map isArrayField pre
       \<and> take (length pre) (pointerFlags aInfo) = map isPointerField pre
       \<and> take (length pre) (unionFlags aInfo) = map isUnionField pre
       \<and> take (length pre) (fieldRealSize aInfo) = map realSize pre
       \<and> take (length pre) (fieldOffset aInfo) = map byteOffset pre
       \<and> take (length pre) (fieldSize aInfo) = replicate (length pre) 1
       \<and> take (length (arrayFlags bInfo)) (drop (length pre) (arrayFlags aInfo)) = arrayFlags bInfo
       \<and> take (length (pointerFlags bInfo)) (drop (length pre) (pointerFlags aInfo)) = pointerFlags bInfo
       \<and> take (length (unionFlags bInfo)) (drop (length pre) (unionFlags aInfo)) = unionFlags bInfo
       \<and> take (length (fieldRealSize bInfo)) (drop (length pre) (fieldRealSize aInfo))
           = fieldRealSize bInfo
       \<and> take (Suc (length (filter (\<lambda>r. r \<noteq> 0) (fieldOffset bInfo))))
             (drop (length pre) (fieldOffset aInfo))
           = off # map (\<lambda>r. r + off) (filter (\<lambda>r. r \<noteq> 0) (fieldOffset bInfo))
       \<and> (fieldOffset bInfo \<noteq> [] \<and> hd (fieldOffset bInfo) = 0 \<and> 0 \<notin> set (tl (fieldOffset bInfo))
          \<longrightarrow> take (length (fieldOffset bInfo)) (drop (length pre) (fieldOffset aInfo))
                = map (\<lambda>r. r + off) (fieldOffset bInfo))
       \<and> getOffset aInfo (length pre) = Inr (of_nat (length pre))
       \<and> (\<exists>bFinal. m' (realType B) = Some bFinal \<and> (stA, off) \<in> containers bFinal)"
proof -
  let ?i = "length pre"
  from flat obtain mF where
    f: "addFields stA (pre @ Embedded off B # rest) freshLayout 0 m = Inr (aInfo, mF)"
    and e: "m' = mF(stA \<mapsto> aInfo)"
    by (auto split: sum.splits prod.splits)
  from addFields_plain_prefix [OF plain, of stA "Embedded off B # rest" freshLayout 0 m]
  obtain mid where
    step: "addFields stA (pre @ Embedded off B # rest) freshLayout 0 m
             = addFields stA (Embedded off B # rest) mid (0 + ?i) m"
    and mid: "arrayFlags mid = map isArrayField pre" "pointerFlags mid = map isPointerField pre"
      "unionFlags mid = map isUnionField pre" "fieldRealSize mid = map realSize pre"
      "fieldOffset mid = map byteOffset pre" "offsetMap mid = map of_nat [0 ..< ?i]"
      "fieldSize mid = replicate ?i 1"
    by (auto simp: freshLayout_def)
  from f step have "addFields stA (Embedded off B # rest) mid ?i m = Inr (aInfo, mF)"
    by simp
  then obtain subInfo m1' spliced rebased where
    c: "computeStructInfo B m = Inr (subInfo, m1')"
    and s: "appendFields (addOffsetMap (addFieldOffset mid off) (of_nat ?i)) subInfo = Inr spliced"
      "appendFieldOffset (setEmbeddingSize spliced ?i (getExpandedSize subInfo)) subInfo = Inr rebased"
    and r: "addFields stA rest rebased (?i + getExpandedSize subInfo)
              (registerContainer stA (realType B) subInfo off m1') = Inr (aInfo, mF)"
    by (rule addFields_Embedded_Inr)
  from c sub have same: "subInfo = bInfo" "m1' = m1"
    by simp_all
  note v = embed_step_vectors [OF s, unfolded same mid]
  from addFields_extends [OF r] have ext:
    "prefix (arrayFlags rebased) (arrayFlags aInfo)" "prefix (pointerFlags rebased) (pointerFlags aInfo)"
    "prefix (unionFlags rebased) (unionFlags aInfo)" "prefix (fieldRealSize rebased) (fieldRealSize aInfo)"
    "prefix (fieldOffset rebased) (fieldOffset aInfo)" "prefix (offsetMap rebased) (offsetMap aInfo)"
    by (simp_all add: extends_def)
  have a: "take ?i (arrayFlags aInfo) = map isArrayField pre"
    "take (length (arrayFlags bInfo)) (drop ?i (arrayFlags aInfo)) = arrayFlags bInfo"
    using prefix_splice [OF ext(1) [unfolded v(1)]] by simp_all
  have p: "take ?i (pointerFlags aInfo) = map isPointerField pre"
    "take (length (pointerFlags bInfo)) (drop ?i (pointerFlags aInfo)) = pointerFlags bInfo"
    using prefix_splice [OF ext(2) [unfolded v(2)]] by simp_all
  have u: "take ?i (unionFlags aInfo) = map isUnionField pre"
    "take (length (unionFlags bInfo)) (drop ?i (unionFlags aInfo)) = unionFlags bInfo"
    using prefix_splice [OF ext(3) [unfolded v(3)]] by simp_all
  have z: "take ?i (fieldRealSize aInfo) = map realSize pre"
    "take (length (fieldRealSize bInfo)) (drop ?i (fieldRealSize aInfo)) = fieldRealSize bInfo"
    using prefix_splice [OF ext(4) [unfolded v(4)]] by simp_all
  let ?nz = "filter (\<lambda>r. r \<noteq> 0) (fieldOffset bInfo)"
  have o: "take ?i (fieldOffset aInfo) = map byteOffset pre"
    "take (Suc (length ?nz)) (drop ?i (fieldOffset aInfo)) = off # map (\<lambda>r. r + off) ?nz"
    using prefix_splice [OF ext(5) [unfolded v(5)]] by simp_all
  have o': "take (length (fieldOffset bInfo)) (drop ?i (fieldOffset aInfo))
              = map (\<lambda>r. r + off) (fieldOffset bInfo)"
    if h: "fieldOffset bInfo \<noteq> [] \<and> hd (fieldOffset bInfo) = 0 \<and> 0 \<notin> set (tl (fieldOffset bInfo))"
  proof -
    from h obtain rel where rel: "fieldOffset bInfo = 0 # rel" "0 \<notin> set rel"
      by (cases "fieldOffset bInfo") auto
    then have "?nz = rel"
      by (simp add: filter_id_conv) metis
    with o(2) rel show ?thesis by simp
  qed
  from v(7) obtain tl where
    "fieldSize rebased = (replicate ?i 1 @ tl)[?i := of_nat (getExpandedSize bInfo)]
     \<or> fieldSize rebased = replicate ?i 1 @ tl"
    by blast
  then have "take ?i (fieldSize rebased) = replicate ?i 1" and "?i \<le> length (fieldSize rebased)"
    by auto
  with addFields_fieldSize_take [OF r, of ?i] have sz: "take ?i (fieldSize aInfo) = replicate ?i 1"
    by simp
  from ext(6) [unfolded v(6)] obtain more where
    "offsetMap aInfo = (map of_nat [0 ..< ?i] @ [of_nat ?i]) @ more"
    by (auto simp: prefix_def)
  then have om: "getOffset aInfo ?i = Inr (of_nat ?i)"
    by (simp add: getOffset_def at_def nth_append)
  have "keeps (registerContainer stA (realType B) subInfo off m1') mF"
    by (rule resolver_keeps(3) [OF r])
  moreover have "registerContainer stA (realType B) subInfo off m1' (realType B)
                   = Some (addContainer bInfo stA off)"
    by (simp add: registerContainer_def same)
  ultimately obtain bFinal where
    "mF (realType B) = Some bFinal" "containers (addContainer bInfo stA off) \<subseteq> containers bFinal"
    unfolding keeps_def by blast
  with other have ct: "\<exists>bFinal. m' (realType B) = Some bFinal \<and> (stA, off) \<in> containers bFinal"
    unfolding e by (auto simp: addContainer_def)
  from a p u z o o' sz om ct show ?thesis
    by blast
qed

lemma addStructInfo_embedding_example:
  "(case addStructInfo (outerDecl innerDecl) Map.empty of
      Inl a \<Rightarrow> False
    | Inr (aInfo, m') \<Rightarrow>
        take 1 (pointerFlags aInfo) = [True]
        \<and> take 2 (drop 1 (fieldOffset aInfo)) = [4, 8]
        \<and> getOffset aInfo 1 = Inr 1
        \<and> (\<exists>bFinal. m' innerType = Some bFinal \<and> (outerType, 4) \<in> containers bFinal))"
proof -
  let ?b = "addRealSize (addField (addOffsetMap (addFieldOffset
              (addRealSize (addField (addOffsetMap (addFieldOffset freshLayout 0) 0)
                 1 False False False) 4) 4) 1) 1 False False False) 4"
  have sub: "computeStructInfo innerDecl Map.empty = Inr (?b, [innerType \<mapsto> ?b])"
    by (simp add: innerDecl_def)
  have bo: "fieldOffset ?b = [0, 4]"
    by (simp add: freshLayout_def addRealSize_def addField_def addOffsetMap_def addFieldOffset_def)
  obtain aInfo m' where
    flat: "addStructInfo (Aggregate outerType ([Plain 0 False True False 4] @ Embedded 4 innerDecl # []))
             Map.empty = Inr (aInfo, m')"
    by (simp add: innerDecl_def freshLayout_def
        addRealSize_def addField_def addOffsetMap_def addFieldOffset_def appendFields_def
        isEmpty_def setEmbeddingSize_def appendFieldOffset_def)
  have plain: "list_all isPlain [Plain 0 False True False 4]"
    by simp
  have other: "realType innerDecl \<noteq> outerType"
    by (simp add: innerDecl_def innerType_def outerType_def)
  note th = addStructInfo_embedding [OF flat plain other sub]
  from th have w1: "take 1 (pointerFlags aInfo) = [True]"
    by simp
  from th bo have "take (Suc (Suc 0)) (drop 1 (fieldOffset aInfo)) = [4, 8]"
    by simp
  then have w2: "take 2 (drop 1 (fieldOffset aInfo)) = [4, 8]"
    by (simp only: numeral_2_eq_2)
  from th have w3: "getOffset aInfo 1 = Inr 1"
    by simp
  from th have w4: "\<exists>bFinal. m' innerType = Some bFinal \<and> (outerType, 4) \<in> containers bFinal"
    by (simp add: innerDecl_def)
  from flat w1 w2 w3 w4 show ?thesis
    by (simp add: outerDecl_def)
qed

text \<open>
  How far the byte offsets fall short in general: \<^verbatim>\<open>appendFields\<close> extends the flag
  vectors by every field of the embedded layout, \<^verbatim>\<open>appendFieldOffset\<close> extends the byte
  offsets by the nonzero ones only. With one byte offset recorded for the embedding field,
  the two stay in step exactly when the embedded layout has one field at relative offset 0.
\<close>

lemma splice_lengths:
  assumes "appendFields this other = Inr spliced"
    and "appendFieldOffset spliced other = Inr rebased"
  shows "length (arrayFlags rebased) = length (arrayFlags this) + length (arrayFlags other)"
    and "length (fieldOffset rebased) + length (filter (\<lambda>i. i = 0) (fieldOffset other))
           = length (fieldOffset this) + length (fieldOffset other)"
proof -
  from assms(1) obtain e where e: "isEmpty other = Inr e"
    by (auto simp: appendFields_def split: sum.splits)
  from assms(1) have sp: "arrayFlags spliced = arrayFlags this @ arrayFlags other"
    "fieldOffset spliced = fieldOffset this"
    unfolding appendFields_result [OF e] by auto
  from assms(2) have ne: "fieldOffset spliced \<noteq> []"
    by (auto simp: appendFieldOffset_def split: if_splits)
  with assms(2) have rb: "arrayFlags rebased = arrayFlags spliced"
    "fieldOffset rebased
       = fieldOffset spliced @ map (\<lambda>i. i + last (fieldOffset spliced))
           (filter (\<lambda>i. i \<noteq> 0) (fieldOffset other))"
    by (auto simp: appendFieldOffset_def pushRebased_eq)
  show "length (arrayFlags rebased) = length (arrayFlags this) + length (arrayFlags other)"
    by (simp add: rb sp)
  have "length (filter (\<lambda>i. i \<noteq> 0) (fieldOffset other))
          + length (filter (\<lambda>i. i = 0) (fieldOffset other)) = length (fieldOffset other)"
    using sum_length_filter_compl [of "\<lambda>i. i = 0" "fieldOffset other"] by simp
  then show "length (fieldOffset rebased) + length (filter (\<lambda>i. i = 0) (fieldOffset other))
           = length (fieldOffset this) + length (fieldOffset other)"
    by (simp add: rb sp)
qed

text \<open>
  The shortfall is inherited: \<open>midDecl\<close> has a single field at relative offset 0, but its
  own layout is already one byte offset short, and so is the layout of \<open>nestedDecl\<close>,
  with five expanded fields and four byte offsets.
\<close>

lemma nested_offsets_fall_short:
  "map_sum id (fieldOffset \<circ> fst) (computeStructInfo midDecl Map.empty) = Inr [0, 4, 8]
   \<and> map_sum id (getExpandedSize \<circ> fst) (computeStructInfo midDecl Map.empty) = Inr 4
   \<and> map_sum id (fieldOffset \<circ> fst) (addStructInfo nestedDecl Map.empty) = Inr [0, 8, 12, 16]
   \<and> map_sum id (getExpandedSize \<circ> fst) (addStructInfo nestedDecl Map.empty) = Inr 5"
  by (simp add: nestedDecl_def midDecl_def paddedDecl_def innerType_def outerType_def
      midType_def freshLayout_def addRealSize_def addField_def addOffsetMap_def
      addFieldOffset_def appendFields_def isEmpty_def setEmbeddingSize_def
      appendFieldOffset_def registerContainer_def addContainer_def getExpandedSize_def)

text \<open>
  C4. The claim does not hold of the code. The embedded aggregate below has three expanded
  fields at relative offsets 0, 0 and 4 (a zero-length array comes first); the outer
  aggregate embeds it as declared field 1 at byte offset 4. \<^verbatim>\<open>appendFields\<close> splices all
  three fields into the flag and real-size vectors, but \<^verbatim>\<open>appendFieldOffset\<close> passes over
  both zero offsets and appends one byte offset only. The outer layout has four expanded
  fields and three byte offsets: the spliced field at expanded position 2 has byte offset
  0 + 4 by the claim and is given 8, the offset of the field after it, and the field at
  position 3 has a real size but no byte offset. The first two lines are the two
  operations of the header alone; the others are the flattening as a whole.
\<close>

theorem appendFieldOffset_drops_zero_offsets:
  "appendFields embeddingStart paddedLayout
     = Inr (outerPaddedLayout\<lparr>fieldSize := [1, 1, 1, 1], fieldOffset := [0, 4]\<rparr>)
   \<and> appendFieldOffset (outerPaddedLayout\<lparr>fieldSize := [1, 1, 1, 1], fieldOffset := [0, 4]\<rparr>)
         paddedLayout
       = Inr (outerPaddedLayout\<lparr>fieldSize := [1, 1, 1, 1]\<rparr>)
   \<and> map_sum id fst (computeStructInfo paddedDecl Map.empty) = Inr paddedLayout
   \<and> getExpandedSize paddedLayout = 3
   \<and> fieldOffset paddedLayout = [0, 0, 4]
   \<and> map_sum id fst (addStructInfo (outerDecl paddedDecl) Map.empty) = Inr outerPaddedLayout
   \<and> getExpandedSize outerPaddedLayout = 4
   \<and> getFieldOffset outerPaddedLayout 1 = Inr 4
   \<and> getFieldOffset outerPaddedLayout 2 = Inr 8
   \<and> getFieldOffset outerPaddedLayout 3 = Inl OutOfRange
   \<and> getFieldRealSize outerPaddedLayout 3 = Inr 4"
  by (simp add: paddedDecl_def outerDecl_def innerType_def outerType_def freshLayout_def
      addRealSize_def addField_def addOffsetMap_def addFieldOffset_def appendFields_def
      isEmpty_def setEmbeddingSize_def appendFieldOffset_def registerContainer_def
      addContainer_def getExpandedSize_def getFieldOffset_def getFieldRealSize_def at_def
      paddedLayout_def outerPaddedLayout_def embeddingStart_def)

end
